theory Spec2Isabelle
  imports Complex_Main "HOL-Library.Log_Nat"
begin

section \<open>Numbers of the host language\<close>

text \<open>
  The service computes with JavaScript numbers, which are IEEE-754 binary64 values.
  A finite number is modelled by the rational it denotes; the two zeros are identified
  (the program never divides by a computed value, so the sign of a zero is not
  observable in it). Every arithmetic result is the exact rational result rounded to the
  nearest binary64 value, ties to the even significand, overflowing to an infinity.
  The numbers proper are the values \<open>Fin q\<close> with \<open>rnd64 q = Fin q\<close>, the infinities and
  NaN; what is proved below for every rational \<open>q\<close> holds for them in particular.
\<close>

datatype number = Fin rat | PosInf | NegInf | NaN

definition round_half_even :: "rat \<Rightarrow> int" where
  "round_half_even x =
     (let f = \<lfloor>x\<rfloor>; d = x - of_int f
      in if d < 1 / 2 then f
         else if 1 / 2 < d then f + 1
         else if even f then f else f + 1)"

definition ilog2 :: "rat \<Rightarrow> int" where
  \<comment> \<open>\<open>\<lfloor>log\<^sub>2 a\<rfloor>\<close> for a positive rational, from the bit lengths of numerator and denominator\<close>
  "ilog2 a =
     (let n = fst (quotient_of a); d = snd (quotient_of a);
          k = int (floorlog 2 (nat n)) - int (floorlog 2 (nat d))
      in if 2 powi k \<le> a then k else k - 1)"

definition rnd64 :: "rat \<Rightarrow> number" where
  \<comment> \<open>round to nearest binary64: 53-bit significand, exponents -1022..1023, gradual underflow\<close>
  "rnd64 q =
     (if q = 0 then Fin 0
      else
        let a = \<bar>q\<bar>;
            e = max (ilog2 a) (- 1022);
            ulp = 2 powi (e - 52);
            r = of_int (round_half_even (a / ulp)) * ulp
        in if 2 powi 1024 \<le> r then (if 0 < q then PosInf else NegInf)
           else Fin (sgn q * r))"

text \<open>
  The program applies \<open>*\<close>, \<open>/\<close>, \<open>+\<close> and \<open>-\<close> only with a positive numeric literal
  on the right. With such an operand an infinity and NaN are returned unchanged, and a
  finite left operand gives the rounded exact result.
\<close>

fun lit_op :: "(rat \<Rightarrow> rat) \<Rightarrow> number \<Rightarrow> number" where
  "lit_op f (Fin a) = rnd64 (f a)"
| "lit_op f PosInf = PosInf"
| "lit_op f NegInf = NegInf"
| "lit_op f NaN = NaN"

definition num_times :: "number \<Rightarrow> rat \<Rightarrow> number" where
  "num_times x c = lit_op (\<lambda>a. a * c) x"

definition num_divide :: "number \<Rightarrow> rat \<Rightarrow> number" where
  "num_divide x c = lit_op (\<lambda>a. a / c) x"

definition num_plus :: "number \<Rightarrow> rat \<Rightarrow> number" where
  "num_plus x c = lit_op (\<lambda>a. a + c) x"

definition num_minus :: "number \<Rightarrow> rat \<Rightarrow> number" where
  "num_minus x c = lit_op (\<lambda>a. a - c) x"

text \<open>Comparison with a finite literal; every comparison with NaN is false.\<close>

fun num_less :: "number \<Rightarrow> rat \<Rightarrow> bool" where
  "num_less (Fin a) c = (a < c)"
| "num_less PosInf c = False"
| "num_less NegInf c = True"
| "num_less NaN c = False"

fun num_greater :: "number \<Rightarrow> rat \<Rightarrow> bool" where
  "num_greater (Fin a) c = (c < a)"
| "num_greater PosInf c = True"
| "num_greater NegInf c = False"
| "num_greater NaN c = False"

text \<open>
  \<open>Number.prototype.toFixed(1)\<close> prints the decimal with one fractional digit nearest
  to the magnitude of the number (of two equally near, the larger), keeping the sign; a
  magnitude of at least \<open>10\<^sup>2\<^sup>1\<close> and the non-finite numbers are printed as
  \<open>String\<close> prints them. A printed string is represented by what it denotes.
  \<open>parseFloat\<close> reads the string back as the nearest binary64 value.
\<close>

datatype numeric_string = Decimal rat | StrInfinity | StrNegInfinity | StrNaN

fun toFixed1 :: "number \<Rightarrow> numeric_string" where
  "toFixed1 (Fin x) =
     (if 10 ^ 21 \<le> \<bar>x\<bar> then Decimal x
      else Decimal (sgn x * (of_int \<lfloor>\<bar>x\<bar> * 10 + 1 / 2\<rfloor> / 10)))"
| "toFixed1 PosInf = StrInfinity"
| "toFixed1 NegInf = StrNegInfinity"
| "toFixed1 NaN = StrNaN"

fun parseFloat :: "numeric_string \<Rightarrow> number" where
  "parseFloat (Decimal d) = rnd64 d"
| "parseFloat StrInfinity = PosInf"
| "parseFloat StrNegInfinity = NegInf"
| "parseFloat StrNaN = NaN"

section \<open>Weather types\<close>

datatype TemperatureUnit = celsius | fahrenheit

datatype ConnectionStatus = online | offline | outdated

text \<open>
  \<open>lastUpdate\<close> is the \<open>Date\<close> built from the provider's \<open>last_updated\<close> string and is
  never inspected, so it is kept as that string; \<open>cachedAt\<close> is a \<open>Date\<close> taken from the
  clock and is kept as its \<open>getTime()\<close>, in milliseconds. The field \<open>location\<close> of
  \<open>WeatherApiResponse\<close> is \<open>location_of\<close> here, and the fields \<open>value\<close>, \<open>from\<close> and
  \<open>to\<close> of \<open>TemperatureConversionParams\<close> are \<open>value_of\<close>, \<open>from_unit\<close> and \<open>to_unit\<close>.
\<close>

record WeatherData =
  temperature :: number
  temperatureUnit :: TemperatureUnit
  location :: string
  lastUpdate :: string
  connectionStatus :: ConnectionStatus

record CachedWeatherData = WeatherData +
  cachedAt :: int

record ApiCurrent =
  temp_c :: number
  temp_f :: number
  last_updated :: string

record ApiLocation =
  name :: string
  region :: string
  country :: string

record WeatherApiResponse =
  current :: ApiCurrent
  location_of :: ApiLocation

record TemperatureConversionParams =
  value_of :: number
  from_unit :: TemperatureUnit
  to_unit :: TemperatureUnit

section \<open>The weather service\<close>

text \<open>
  Errors are values. The three errors the service constructs are named after their
  messages; \<open>Thrown\<close> is an exception raised by \<open>fetch\<close> or by \<open>response.json()\<close>.
\<close>

datatype error =
    weatherApiRequestFailed
  | temperatureOutOfRange
  | noCachedDataAvailable
  | Thrown string

text \<open>
  What the provider does with one request: \<open>fetch\<close> rejects, or it resolves to a
  response with its \<open>ok\<close> flag and the outcome of \<open>response.json()\<close>. The provider is
  a function from the location asked for to this outcome, and the clock is the argument
  \<open>now\<close>: each call reads the clock once, when it stamps the cache or when it computes
  the age of the cache. Calls are taken one at a time.
\<close>

datatype json_outcome = JsonRejected string | JsonBody WeatherApiResponse

datatype fetch_outcome = FetchRejected string | Response bool json_outcome

text \<open>The module variable \<open>weatherCache\<close>: \<open>None\<close> is \<open>null\<close>.\<close>

type_synonym cache = "CachedWeatherData option"

definition oneHour :: int where
  "oneHour = 60 * 60 * 1000"

definition twentyFourHours :: int where
  "twentyFourHours = 24 * 60 * 60 * 1000"

definition cacheStatus :: "int \<Rightarrow> ConnectionStatus" where
  \<comment> \<open>the \<open>be-cache-expiration\<close> rule of \<open>getCachedWeatherData\<close>\<close>
  "cacheStatus cacheAge =
     (if twentyFourHours < cacheAge then outdated
      else if oneHour < cacheAge then outdated
      else offline)"

text \<open>
  The object that \<open>getCachedWeatherData\<close> returns is the cached one with its status
  replaced; of it the model keeps the fields of the declared result type \<open>WeatherData\<close>.
\<close>

definition getCachedWeatherData :: "int \<Rightarrow> cache \<Rightarrow> error + WeatherData" where
  "getCachedWeatherData now weatherCache =
     (case weatherCache of
        None \<Rightarrow> Inl noCachedDataAvailable
      | Some c \<Rightarrow>
          let cacheAge = now - cachedAt c
          in Inr \<lparr>temperature = temperature c,
                  temperatureUnit = temperatureUnit c,
                  location = location c,
                  lastUpdate = lastUpdate c,
                  connectionStatus = cacheStatus cacheAge\<rparr>)"

definition buildWeatherData :: "WeatherApiResponse \<Rightarrow> WeatherData" where
  "buildWeatherData data =
     \<lparr>temperature = parseFloat (toFixed1 (temp_c (current data))),
      temperatureUnit = celsius,
      location = name (location_of data) @ '', '' @
        (if region (location_of data) = [] then country (location_of data)
         else region (location_of data)),
      lastUpdate = last_updated (current data),
      connectionStatus = online\<rparr>"

definition fetchAttempt :: "fetch_outcome \<Rightarrow> int \<Rightarrow> error + (WeatherData \<times> cache)" where
  \<comment> \<open>the \<open>try\<close> block of \<open>fetchWeatherData\<close>: the value returned and the cache written\<close>
  "fetchAttempt outcome now =
     (case outcome of
        FetchRejected e \<Rightarrow> Inl (Thrown e)
      | Response ok body \<Rightarrow>
          if \<not> ok then Inl weatherApiRequestFailed
          else (case body of
                  JsonRejected e \<Rightarrow> Inl (Thrown e)
                | JsonBody data \<Rightarrow>
                    if num_less (temp_c (current data)) (- 90) \<or>
                       num_greater (temp_c (current data)) 60
                    then Inl temperatureOutOfRange
                    else
                      let weatherData = buildWeatherData data
                      in Inr (weatherData,
                              Some \<lparr>temperature = temperature weatherData,
                                    temperatureUnit = temperatureUnit weatherData,
                                    location = location weatherData,
                                    lastUpdate = lastUpdate weatherData,
                                    connectionStatus = connectionStatus weatherData,
                                    cachedAt = now\<rparr>)))"

definition fetchWeatherData ::
  "(string \<Rightarrow> fetch_outcome) \<Rightarrow> int \<Rightarrow> string \<Rightarrow> cache \<Rightarrow> (error + WeatherData) \<times> cache" where
  "fetchWeatherData provider now loc weatherCache =
     (case fetchAttempt (provider loc) now of
        Inr (weatherData, written) \<Rightarrow> (Inr weatherData, written)
      | Inl err \<Rightarrow>
          (case weatherCache of
             Some c \<Rightarrow> (getCachedWeatherData now weatherCache, weatherCache)
           | None \<Rightarrow> (Inl err, weatherCache)))"

definition convertTemperature :: "TemperatureConversionParams \<Rightarrow> number" where
  "convertTemperature params =
     (let v = value_of params; f = from_unit params; t = to_unit params
      in if f = t then parseFloat (toFixed1 v)
         else if f = celsius \<and> t = fahrenheit
           then parseFloat (toFixed1 (num_plus (num_divide (num_times v 9) 5) 32))
         else if f = fahrenheit \<and> t = celsius
           then parseFloat (toFixed1 (num_divide (num_times (num_minus v 32) 5) 9))
         else parseFloat (toFixed1 v))"

definition hasCachedData :: "cache \<Rightarrow> bool" where
  "hasCachedData weatherCache = (weatherCache \<noteq> None)"

definition clearCache :: "cache \<Rightarrow> cache" where
  "clearCache weatherCache = None"

section \<open>Notions of the specification\<close>

text \<open>Rounding to one decimal place, as the service does it everywhere.\<close>

definition round1 :: "number \<Rightarrow> number" where
  "round1 v = parseFloat (toFixed1 v)"

text \<open>
  The conversion as the specification words it: by cases on the two units, with the
  formulas \<open>v * 9 / 5 + 32\<close> and \<open>(v - 32) * 5 / 9\<close>.
\<close>

fun convertTemperature_spec :: "number \<Rightarrow> TemperatureUnit \<Rightarrow> TemperatureUnit \<Rightarrow> number" where
  "convertTemperature_spec v celsius fahrenheit =
     round1 (num_plus (num_divide (num_times v 9) 5) 32)"
| "convertTemperature_spec v fahrenheit celsius =
     round1 (num_divide (num_times (num_minus v 32) 5) 9)"
| "convertTemperature_spec v celsius celsius = round1 v"
| "convertTemperature_spec v fahrenheit fahrenheit = round1 v"

text \<open>
  Two numbers differ by at most 0.1. The difference of numbers that are not both finite
  is infinite or NaN, and not within the tolerance.
\<close>

fun within_tenth :: "number \<Rightarrow> number \<Rightarrow> bool" where
  "within_tenth (Fin a) (Fin b) = (\<bar>a - b\<bar> \<le> 1 / 10)"
| "within_tenth (Fin a) PosInf = False"
| "within_tenth (Fin a) NegInf = False"
| "within_tenth (Fin a) NaN = False"
| "within_tenth PosInf y = False"
| "within_tenth NegInf y = False"
| "within_tenth NaN y = False"

text \<open>The closed interval of plausible Celsius readings.\<close>

fun in_plausible_range :: "number \<Rightarrow> bool" where
  "in_plausible_range (Fin a) = (- 90 \<le> a \<and> a \<le> 60)"
| "in_plausible_range PosInf = False"
| "in_plausible_range NegInf = False"
| "in_plausible_range NaN = False"

text \<open>
  \<open>response.json()\<close> reads JSON text, and a JSON number is read as a finite number or,
  when its magnitude is too large, as an infinity: never as NaN.
\<close>

fun json_number :: "number \<Rightarrow> bool" where
  "json_number NaN = False"
| "json_number (Fin a) = True"
| "json_number PosInf = True"
| "json_number NegInf = True"

fun json_payload :: "fetch_outcome \<Rightarrow> bool" where
  "json_payload (Response ok (JsonBody data)) = json_number (temp_c (current data))"
| "json_payload (Response ok (JsonRejected e)) = True"
| "json_payload (FetchRejected e) = True"

text \<open>The five operations of the service, and the slot after a sequence of them.\<close>

datatype operation =
    FetchWeatherData "string \<Rightarrow> fetch_outcome" int string
  | GetCachedWeatherData int
  | ConvertTemperature TemperatureConversionParams
  | HasCachedData
  | ClearCache

fun step :: "cache \<Rightarrow> operation \<Rightarrow> cache" where
  "step weatherCache (FetchWeatherData provider now loc) =
     snd (fetchWeatherData provider now loc weatherCache)"
| "step weatherCache (GetCachedWeatherData now) = weatherCache"
| "step weatherCache (ConvertTemperature params) = weatherCache"
| "step weatherCache HasCachedData = weatherCache"
| "step weatherCache ClearCache = clearCache weatherCache"

definition run :: "operation list \<Rightarrow> cache" where
  "run ops = foldl step None ops"

fun json_operation :: "operation \<Rightarrow> bool" where
  "json_operation (FetchWeatherData provider now loc) = json_payload (provider loc)"
| "json_operation (GetCachedWeatherData now) = True"
| "json_operation (ConvertTemperature params) = True"
| "json_operation HasCachedData = True"
| "json_operation ClearCache = True"

definition stored_fresh :: "cache \<Rightarrow> bool" where
  \<comment> \<open>what the slot holds, when it holds something, is a validated fresh reading:
      online, in Celsius, within the range, and the number nearest to one of the
      decimals -90.0, -89.9, ..., 60.0\<close>
  "stored_fresh weatherCache =
     (case weatherCache of
        None \<Rightarrow> True
      | Some c \<Rightarrow>
          connectionStatus c = online \<and> temperatureUnit c = celsius \<and>
          in_plausible_range (temperature c) \<and>
          (\<exists>n \<in> {- 900 .. 600}. temperature c = rnd64 (of_int n / 10)))"

text \<open>The expiration rule with a single threshold, to compare with \<open>cacheStatus\<close>.\<close>

definition cacheStatus_single :: "int \<Rightarrow> ConnectionStatus" where
  \<comment> \<open>the single-threshold reading of the expiration rule: one hour is 3600000 ms\<close>
  "cacheStatus_single cacheAge = (if cacheAge \<le> 3600000 then offline else outdated)"

section \<open>Rounding to binary64\<close>

lemma round_half_even_of_int: "round_half_even (of_int n) = n"
  by (simp add: round_half_even_def)

lemma round_half_even_err: "\<bar>of_int (round_half_even x) - x\<bar> \<le> 1 / 2"
proof -
  have "of_int \<lfloor>x\<rfloor> \<le> x" "x < of_int \<lfloor>x\<rfloor> + 1" by linarith+
  then show ?thesis
    by (auto simp add: round_half_even_def Let_def)
qed

lemma round_half_even_le: "x \<le> of_int n \<Longrightarrow> round_half_even x \<le> n"
proof -
  assume h: "x \<le> of_int n"
  have e: "\<bar>of_int (round_half_even x) - x\<bar> \<le> 1 / 2" by (rule round_half_even_err)
  show ?thesis
  proof (cases "x = of_int n")
    case True then show ?thesis by (simp add: round_half_even_of_int)
  next
    case False
    with h have lt: "x < of_int n" by simp
    then have fl: "\<lfloor>x\<rfloor> < n" by (simp add: floor_less_iff)
    have "round_half_even x \<le> \<lfloor>x\<rfloor> + 1"
      by (simp add: round_half_even_def Let_def)
    with fl show ?thesis by linarith
  qed
qed

lemma round_half_even_ge: "of_int n \<le> x \<Longrightarrow> n \<le> round_half_even x"
proof -
  assume h: "of_int n \<le> x"
  then have "n \<le> \<lfloor>x\<rfloor>" by (simp add: le_floor_iff)
  moreover have "\<lfloor>x\<rfloor> \<le> round_half_even x"
    by (simp add: round_half_even_def Let_def)
  ultimately show ?thesis by linarith
qed

lemma powi_mono2: "k \<le> l \<Longrightarrow> (2::rat) powi k \<le> 2 powi l"
  by (rule power_int_increasing) simp_all

lemma powi_strict2: "k < l \<Longrightarrow> (2::rat) powi k < 2 powi l"
  by (rule power_int_strict_increasing) simp_all

lemma powi_pos2: "0 < (2::rat) powi k"
  by simp

lemma ilog2_unique_aux:
  assumes "(2::rat) powi k \<le> a" "a < 2 powi (k + 1)" "2 powi l \<le> a" "a < 2 powi (l + 1)"
  shows "k = l"
proof (rule ccontr)
  assume "k \<noteq> l"
  then consider "k + 1 \<le> l" | "l + 1 \<le> k" by linarith
  then show False
  proof cases
    case 1
    from powi_mono2 [OF 1] assms show False by linarith
  next
    case 2
    from powi_mono2 [OF 2] assms show False by linarith
  qed
qed

lemma ilog2_coarse:
  assumes "0 < a"
  defines "k \<equiv> int (floorlog 2 (nat (fst (quotient_of a)))) - int (floorlog 2 (nat (snd (quotient_of a))))"
  shows "2 powi (k - 1) \<le> a \<and> a < 2 powi (k + 1)"
proof -
  obtain n d where qd: "quotient_of a = (n, d)" by (cases "quotient_of a")
  have dpos: "0 < d" using qd by (rule quotient_of_denom_pos)
  have a_eq: "a = of_int n / of_int d" using qd by (rule quotient_of_div)
  have npos: "0 < n" using assms(1) dpos a_eq by (simp add: zero_less_divide_iff)
  define N where "N = nat n"
  define D where "D = nat d"
  have Npos: "0 < N" and Dpos: "0 < D" using npos dpos by (simp_all add: N_def D_def)
  have a_ND: "a = of_nat N / of_nat D" using a_eq npos dpos by (simp add: N_def D_def)
  define bn where "bn = floorlog 2 N"
  define bd where "bd = floorlog 2 D"
  have bN: "2 ^ (bn - 1) \<le> N" "N < 2 ^ bn"
    using floorlog_bounds [of N 2] Npos by (simp_all add: bn_def)
  have bD: "2 ^ (bd - 1) \<le> D" "D < 2 ^ bd"
    using floorlog_bounds [of D 2] Dpos by (simp_all add: bd_def)
  have bn1: "1 \<le> bn" using Npos by (simp add: bn_def floorlog_def)
  have bd1: "1 \<le> bd" using Dpos by (simp add: bd_def floorlog_def)
  have k_eq: "k = int bn - int bd" using qd by (simp add: k_def bn_def bd_def N_def D_def)
  have rN: "(2::rat) ^ (bn - 1) \<le> of_nat N" "(of_nat N :: rat) < 2 ^ bn"
    using bN by (metis of_nat_le_iff of_nat_numeral of_nat_power, metis of_nat_less_iff of_nat_numeral of_nat_power)
  have rD: "(2::rat) ^ (bd - 1) \<le> of_nat D" "(of_nat D :: rat) < 2 ^ bd"
    using bD by (metis of_nat_le_iff of_nat_numeral of_nat_power, metis of_nat_less_iff of_nat_numeral of_nat_power)
  have Dr: "0 < (of_nat D :: rat)" using Dpos by simp
  have k1: "k - 1 = int (bn - 1) - int bd" and k2: "k + 1 = int bn - int (bd - 1)"
    using bn1 bd1 by (simp_all add: k_eq)
  have p1: "(2::rat) powi (k - 1) = 2 ^ (bn - 1) / 2 ^ bd"
    unfolding k1 by (simp add: power_int_diff)
  have p2: "(2::rat) powi (k + 1) = 2 ^ bn / 2 ^ (bd - 1)"
    unfolding k2 by (simp add: power_int_diff)
  have lower: "(2::rat) ^ (bn - 1) / 2 ^ bd \<le> of_nat N / of_nat D"
    using rN(1) rD(2) Dr by (intro frac_le) simp_all
  have upper: "(of_nat N :: rat) / of_nat D < 2 ^ bn / 2 ^ (bd - 1)"
    using rN(2) rD(1) Dr by (intro frac_less) simp_all
  show ?thesis using lower upper by (simp add: p1 p2 a_ND)
qed

lemma ilog2_bounds:
  assumes "0 < a"
  shows "2 powi (ilog2 a) \<le> a \<and> a < 2 powi (ilog2 a + 1)"
  using ilog2_coarse [OF assms]
  by (auto simp add: ilog2_def Let_def not_le)


lemma ilog2_unique:
  assumes "0 < a" "2 powi k \<le> a" "a < 2 powi (k + 1)"
  shows "ilog2 a = k"
  using ilog2_bounds [OF assms(1)] assms(2,3) by (intro ilog2_unique_aux [of _ a]) simp_all

lemma ilog2_le:
  assumes "0 < a" "a < 2 powi (k + 1)"
  shows "ilog2 a \<le> k"
proof (rule ccontr)
  assume "\<not> ilog2 a \<le> k"
  then have "k + 1 \<le> ilog2 a" by simp
  from powi_mono2 [OF this] ilog2_bounds [OF assms(1)] assms(2) show False by linarith
qed

lemma rnd64_unfold:
  assumes "q \<noteq> 0" "e = max (ilog2 \<bar>q\<bar>) (- 1022)"
    "m = round_half_even (\<bar>q\<bar> / 2 powi (e - 52))"
  shows "rnd64 q =
    (if (2::rat) powi 1024 \<le> of_int m * 2 powi (e - 52) then (if 0 < q then PosInf else NegInf)
     else Fin (sgn q * (of_int m * 2 powi (e - 52))))"
  unfolding rnd64_def Let_def assms(2,3) using assms(1) by (simp only: if_False)

lemma expo_facts:
  assumes "q \<noteq> 0" "e = max (ilog2 \<bar>q\<bar>) (- 1022)"
  shows "\<bar>q\<bar> < 2 powi (e + 1)" "- 1022 \<le> e" "2 powi e \<le> \<bar>q\<bar> \<or> e = - 1022"
proof -
  have pos: "0 < \<bar>q\<bar>" using assms(1) by simp
  note b = ilog2_bounds [OF pos]
  have "ilog2 \<bar>q\<bar> + 1 \<le> e + 1" using assms(2) by simp
  from powi_mono2 [OF this] b show "\<bar>q\<bar> < 2 powi (e + 1)" by linarith
  show "- 1022 \<le> e" using assms(2) by simp
  show "2 powi e \<le> \<bar>q\<bar> \<or> e = - 1022" using assms(2) b by (auto simp add: max_def)
qed

lemma powi_split53: "(2::rat) powi (e + 1) = 2 ^ 53 * 2 powi (e - 52)"
proof -
  have "e + 1 = 53 + (e - 52)" by simp
  then have "(2::rat) powi (e + 1) = 2 powi (53 + (e - 52))" by (simp only:)
  also have "\<dots> = 2 powi 53 * 2 powi (e - 52)" by (rule power_int_add) simp
  finally show ?thesis by simp
qed

lemma powi_half: "(2::rat) powi (e - 53) = 2 powi (e - 52) / 2"
proof -
  have "e - 52 = 1 + (e - 53)" by simp
  then have "(2::rat) powi (e - 52) = 2 powi (1 + (e - 53))" by (simp only:)
  also have "\<dots> = 2 powi 1 * 2 powi (e - 53)" by (rule power_int_add) simp
  finally show ?thesis by simp
qed

lemma mant_facts:
  assumes "0 < a" "a < 2 powi (e + 1)" "m = round_half_even (a / 2 powi (e - 52))"
  shows "0 \<le> m" "of_int m * (2::rat) powi (e - 52) \<le> 2 powi (e + 1)"
    "\<bar>of_int m * 2 powi (e - 52) - a\<bar> \<le> 2 powi (e - 53)"
proof -
  define ulp :: rat where "ulp = 2 powi (e - 52)"
  have up: "0 < ulp" by (simp add: ulp_def)
  have "of_int 0 \<le> a / ulp" using assms(1) up by simp
  then show "0 \<le> m" unfolding assms(3) ulp_def [symmetric] by (rule round_half_even_ge)
  have "a / ulp \<le> 2 ^ 53"
    using assms(2) up by (simp add: powi_split53 ulp_def [symmetric] pos_divide_le_eq)
  then have "a / ulp \<le> of_int (2 ^ 53)" by simp
  then have "m \<le> 2 ^ 53" unfolding assms(3) ulp_def [symmetric] by (rule round_half_even_le)
  then have "(of_int m :: rat) \<le> 2 ^ 53" by (metis of_int_le_iff of_int_numeral of_int_power)
  then have "of_int m * ulp \<le> 2 ^ 53 * ulp" using up by simp
  then show "of_int m * (2::rat) powi (e - 52) \<le> 2 powi (e + 1)"
    by (simp add: powi_split53 ulp_def)
  have "\<bar>of_int m - a / ulp\<bar> \<le> 1 / 2"
    unfolding assms(3) ulp_def [symmetric] by (rule round_half_even_err)
  then have "\<bar>of_int m - a / ulp\<bar> * ulp \<le> 1 / 2 * ulp" using up by simp
  moreover have "\<bar>of_int m - a / ulp\<bar> * ulp = \<bar>of_int m * ulp - a\<bar>"
  proof -
    have "\<bar>of_int m - a / ulp\<bar> * ulp = \<bar>(of_int m - a / ulp) * ulp\<bar>"
      using up by (simp add: abs_mult)
    also have "(of_int m - a / ulp) * ulp = of_int m * ulp - a"
      using up by (simp add: algebra_simps)
    finally show ?thesis .
  qed
  ultimately have "\<bar>of_int m * ulp - a\<bar> \<le> ulp / 2" by simp
  then show "\<bar>of_int m * 2 powi (e - 52) - a\<bar> \<le> 2 powi (e - 53)"
    unfolding powi_half ulp_def .
qed


lemma rnd64_zero: "rnd64 0 = Fin 0"
  by (simp add: rnd64_def)

lemma powi_split52: "(2::rat) powi e = 2 ^ 52 * 2 powi (e - 52)"
proof -
  have "e = 52 + (e - 52)" by simp
  then have "(2::rat) powi e = 2 powi (52 + (e - 52))" by (simp only:)
  also have "\<dots> = 2 powi 52 * 2 powi (e - 52)" by (rule power_int_add) simp
  finally show ?thesis by simp
qed

lemma rnd64_finite:
  assumes "\<bar>q\<bar> < 2 powi (k + 1)" "- 1022 \<le> k" "k \<le> 1022"
  obtains r where "rnd64 q = Fin r" "\<bar>r - q\<bar> \<le> 2 powi (k - 53)"
    "0 \<le> q \<Longrightarrow> 0 \<le> r" "q \<le> 0 \<Longrightarrow> r \<le> 0"
proof (cases "q = 0")
  case True
  show ?thesis by (rule that [of 0]) (simp_all add: True rnd64_zero)
next
  case False
  define e where "e = max (ilog2 \<bar>q\<bar>) (- 1022)"
  define m where "m = round_half_even (\<bar>q\<bar> / 2 powi (e - 52))"
  define R :: rat where "R = of_int m * 2 powi (e - 52)"
  have pos: "0 < \<bar>q\<bar>" using False by simp
  note ef = expo_facts [OF False e_def]
  note mf = mant_facts [OF pos ef(1) m_def, folded R_def]
  have "ilog2 \<bar>q\<bar> \<le> k" using pos assms(1) by (rule ilog2_le)
  then have ek: "e \<le> k" using assms(2) by (simp add: e_def)
  have R0: "0 \<le> R" using mf(1) by (simp add: R_def)
  have "e + 1 \<le> 1023" using ek assms(3) by simp
  from powi_mono2 [OF this] mf(2) have "R \<le> 2 powi 1023" by linarith
  moreover have "(2::rat) powi 1023 < 2 powi 1024" by (rule powi_strict2) simp
  ultimately have nov: "\<not> 2 powi 1024 \<le> R" by linarith
  have val: "rnd64 q = Fin (sgn q * R)"
    using rnd64_unfold [OF False e_def m_def, folded R_def] nov by (simp only: if_False)
  have "e - 53 \<le> k - 53" using ek by simp
  from powi_mono2 [OF this] mf(3) have err: "\<bar>R - \<bar>q\<bar>\<bar> \<le> 2 powi (k - 53)" by linarith
  show ?thesis
  proof (rule that [of "sgn q * R"])
    show "rnd64 q = Fin (sgn q * R)" by (rule val)
    show "\<bar>sgn q * R - q\<bar> \<le> 2 powi (k - 53)"
      using err False by (cases "0 < q") (simp_all add: sgn_if abs_if split: if_splits)
    show "0 \<le> q \<Longrightarrow> 0 \<le> sgn q * R" using R0 False by (simp add: sgn_if)
    show "q \<le> 0 \<Longrightarrow> sgn q * R \<le> 0" using R0 False by (simp add: sgn_if)
  qed
qed

lemma rnd64_bounded:
  assumes "\<bar>q\<bar> \<le> B" "B = of_int M * 2 powi (k - 52)" "2 powi k \<le> B" "B < 2 powi (k + 1)"
    "- 1022 \<le> k" "k \<le> 1022"
  obtains r where "rnd64 q = Fin r" "\<bar>r\<bar> \<le> B"
proof (cases "q = 0")
  case True
  have "0 \<le> B" using assms(1) by simp
  then show ?thesis by (intro that [of 0]) (simp_all add: True rnd64_zero)
next
  case False
  define e where "e = max (ilog2 \<bar>q\<bar>) (- 1022)"
  define m where "m = round_half_even (\<bar>q\<bar> / 2 powi (e - 52))"
  define R :: rat where "R = of_int m * 2 powi (e - 52)"
  have pos: "0 < \<bar>q\<bar>" using False by simp
  note ef = expo_facts [OF False e_def]
  note mf = mant_facts [OF pos ef(1) m_def, folded R_def]
  have "\<bar>q\<bar> < 2 powi (k + 1)" using assms(1,4) by linarith
  with pos have "ilog2 \<bar>q\<bar> \<le> k" by (rule ilog2_le)
  then have ek: "e \<le> k" using assms(5) by (simp add: e_def)
  have R0: "0 \<le> R" using mf(1) by (simp add: R_def)
  have "e + 1 \<le> 1023" using ek assms(6) by simp
  from powi_mono2 [OF this] mf(2) have "R \<le> 2 powi 1023" by linarith
  moreover have "(2::rat) powi 1023 < 2 powi 1024" by (rule powi_strict2) simp
  ultimately have nov: "\<not> 2 powi 1024 \<le> R" by linarith
  have val: "rnd64 q = Fin (sgn q * R)"
    using rnd64_unfold [OF False e_def m_def, folded R_def] nov by (simp only: if_False)
  have RB: "R \<le> B"
  proof (cases "e = k")
    case True
    have up: "0 < (2::rat) powi (k - 52)" by simp
    have "\<bar>q\<bar> / 2 powi (k - 52) \<le> of_int M"
      using assms(1,2) up by (simp add: pos_divide_le_eq)
    then have "m \<le> M" unfolding m_def True by (rule round_half_even_le)
    then have "(of_int m :: rat) \<le> of_int M" by simp
    then have "of_int m * 2 powi (k - 52) \<le> of_int M * (2::rat) powi (k - 52)"
      using up by simp
    then show ?thesis by (simp add: R_def True assms(2))
  next
    case False
    with ek have "e + 1 \<le> k" by simp
    from powi_mono2 [OF this] mf(2) assms(3) show ?thesis by linarith
  qed
  show ?thesis
  proof (rule that [of "sgn q * R"])
    show "rnd64 q = Fin (sgn q * R)" by (rule val)
    show "\<bar>sgn q * R\<bar> \<le> B" using RB R0 False by (simp add: abs_mult)
  qed
qed

lemma rnd64_exact:
  assumes "2 powi k \<le> \<bar>q\<bar>" "\<bar>q\<bar> < 2 powi (k + 1)" "- 1022 \<le> k" "k \<le> 1023"
    "\<bar>q\<bar> = of_int M * 2 powi (k - 52)"
  shows "rnd64 q = Fin q"
proof -
  have pos: "0 < \<bar>q\<bar>" using assms(1) powi_pos2 [of k] by linarith
  then have nz: "q \<noteq> 0" by simp
  have ik: "ilog2 \<bar>q\<bar> = k" using pos assms(1,2) by (rule ilog2_unique)
  have e: "k = max (ilog2 \<bar>q\<bar>) (- 1022)" using assms(3) by (simp add: ik)
  have "\<bar>q\<bar> / 2 powi (k - 52) = of_int M" by (simp add: assms(5))
  then have m: "M = round_half_even (\<bar>q\<bar> / 2 powi (k - 52))"
    by (simp add: round_half_even_of_int)
  have "k + 1 \<le> 1024" using assms(4) by simp
  from powi_mono2 [OF this] assms(2) have "\<not> 2 powi 1024 \<le> of_int M * (2::rat) powi (k - 52)"
    unfolding assms(5) [symmetric] by linarith
  with rnd64_unfold [OF nz e m] have "rnd64 q = Fin (sgn q * (of_int M * 2 powi (k - 52)))"
    by (simp only: if_False)
  then show ?thesis unfolding assms(5) [symmetric] by (simp add: mult_sgn_abs)
qed

lemma rnd64_overflow:
  assumes "2 powi 1024 \<le> q"
  shows "rnd64 q = PosInf"
proof -
  have qpos: "0 < q" using assms powi_pos2 [of 1024] by linarith
  then have nz: "q \<noteq> 0" and aq: "\<bar>q\<bar> = q" by simp_all
  define e where "e = max (ilog2 \<bar>q\<bar>) (- 1022)"
  define m where "m = round_half_even (\<bar>q\<bar> / 2 powi (e - 52))"
  note b = ilog2_bounds [OF qpos]
  have ge: "1024 \<le> ilog2 q"
  proof (rule ccontr)
    assume "\<not> 1024 \<le> ilog2 q"
    then have "ilog2 q + 1 \<le> 1024" by simp
    from powi_mono2 [OF this] b assms show False by linarith
  qed
  then have e_eq: "e = ilog2 q" by (simp add: e_def aq)
  have up: "0 < (2::rat) powi (e - 52)" by simp
  have sp: "(2::rat) powi e = 2 ^ 52 * 2 powi (e - 52)" by (rule powi_split52)
  have "2 powi e \<le> q" using b by (simp add: e_eq)
  then have "2 ^ 52 * 2 powi (e - 52) \<le> q" unfolding sp .
  then have "(2::rat) ^ 52 \<le> q / 2 powi (e - 52)" using up by (simp add: pos_le_divide_eq)
  then have "of_int (2 ^ 52) \<le> \<bar>q\<bar> / 2 powi (e - 52)" by (simp add: aq)
  then have "2 ^ 52 \<le> m" unfolding m_def by (rule round_half_even_ge)
  then have "(2::rat) ^ 52 \<le> of_int m" by (metis of_int_le_iff of_int_numeral of_int_power)
  then have "2 ^ 52 * 2 powi (e - 52) \<le> of_int m * (2::rat) powi (e - 52)" using up by simp
  then have "2 powi e \<le> of_int m * (2::rat) powi (e - 52)" unfolding sp .
  moreover have "(2::rat) powi 1024 \<le> 2 powi e" using ge by (intro powi_mono2) (simp add: e_eq)
  ultimately have ov: "2 powi 1024 \<le> of_int m * (2::rat) powi (e - 52)" by linarith
  show ?thesis using rnd64_unfold [OF nz e_def m_def] ov qpos by (simp only: if_True)
qed

lemma ilog2_nonneg:
  assumes "1 \<le> a"
  shows "0 \<le> ilog2 a"
proof (rule ccontr)
  assume "\<not> 0 \<le> ilog2 a"
  then have "ilog2 a + 1 \<le> 0" by simp
  from powi_mono2 [OF this] ilog2_bounds [of a] assms show False by simp
qed

lemma rnd64_of_int:
  assumes "\<bar>n\<bar> < 2 ^ 53"
  shows "rnd64 (of_int n) = Fin (of_int n)"
proof (cases "n = 0")
  case True
  then show ?thesis by (simp add: rnd64_zero)
next
  case False
  define a :: rat where "a = \<bar>of_int n\<bar>"
  have "1 \<le> \<bar>n\<bar>" using False by simp
  then have "(1::rat) \<le> of_int \<bar>n\<bar>" by (simp only: of_int_1_le_iff)
  then have a1: "1 \<le> a" by (simp add: a_def)
  then have apos: "0 < a" by simp
  define k where "k = ilog2 a"
  note b = ilog2_bounds [OF apos, folded k_def]
  have k0: "0 \<le> k" unfolding k_def using a1 by (rule ilog2_nonneg)
  have "a < 2 ^ 53" using assms unfolding a_def
    by (metis of_int_abs of_int_less_iff of_int_numeral of_int_power)
  then have "a < 2 powi (52 + 1)" by simp
  with apos have k52: "k \<le> 52" unfolding k_def by (rule ilog2_le)
  define j where "j = nat (52 - k)"
  have kj: "k - 52 = - int j" using k52 by (simp add: j_def)
  have pj: "(2::rat) powi (k - 52) = 1 / 2 ^ j"
    unfolding kj by (simp add: power_int_minus_divide)
  have rep: "\<bar>rat_of_int n\<bar> = of_int (\<bar>n\<bar> * 2 ^ j) * 2 powi (k - 52)"
    by (simp add: pj)
  show ?thesis
    using b k52 k0 by (intro rnd64_exact [where k = k and M = "\<bar>n\<bar> * 2 ^ j"]) (simp_all add: a_def rep [symmetric] del: of_int_abs of_int_mult of_int_power)
qed

lemma rnd64_numeral:
  "(numeral w :: int) < 2 ^ 53 \<Longrightarrow> rnd64 (numeral w) = Fin (numeral w)"
  using rnd64_of_int [of "numeral w"] by simp

lemma rnd64_neg_numeral:
  "(numeral w :: int) < 2 ^ 53 \<Longrightarrow> rnd64 (- numeral w) = Fin (- numeral w)"
  using rnd64_of_int [of "- numeral w"] by simp

lemma rnd64_one: "rnd64 1 = Fin 1"
  using rnd64_of_int [of 1] by simp


lemma floor_plus_half: "\<lfloor>rat_of_int k + 1 / 2\<rfloor> = k"
  by (rule floor_unique) simp_all

lemma toFixed1_of_int: "toFixed1 (Fin (of_int n)) = Decimal (of_int n)"
proof -
  have "\<bar>rat_of_int n\<bar> * 10 + 1 / 2 = rat_of_int (\<bar>n\<bar> * 10) + 1 / 2" by simp
  then have "\<lfloor>\<bar>rat_of_int n\<bar> * 10 + 1 / 2\<rfloor> = \<bar>n\<bar> * 10" by (simp only: floor_plus_half)
  then show ?thesis by (simp add: mult_sgn_abs)
qed

lemma round1_of_int: "\<bar>n\<bar> < 2 ^ 53 \<Longrightarrow> round1 (Fin (of_int n)) = Fin (of_int n)"
  by (simp add: round1_def toFixed1_of_int rnd64_of_int del: toFixed1.simps)

lemma round1_numeral: "(numeral w :: int) < 2 ^ 53 \<Longrightarrow> round1 (Fin (numeral w)) = Fin (numeral w)"
  using round1_of_int [of "numeral w"] by simp

lemma round1_neg_numeral:
  "(numeral w :: int) < 2 ^ 53 \<Longrightarrow> round1 (Fin (- numeral w)) = Fin (- numeral w)"
  using round1_of_int [of "- numeral w"] by simp

lemma round1_zero: "round1 (Fin 0) = Fin 0"
  using round1_of_int [of 0] by simp

lemma rnd64_step:
  assumes "\<bar>q\<bar> < 2 ^ 44"
  obtains r where "rnd64 q = Fin r" "\<bar>r - q\<bar> \<le> 1 / 1024"
proof -
  have "\<bar>q\<bar> < 2 powi (43 + 1)" using assms by simp
  then obtain r where "rnd64 q = Fin r" "\<bar>r - q\<bar> \<le> 2 powi (43 - 53)"
    by (rule rnd64_finite) simp_all
  then show ?thesis by (intro that [of r]) (simp_all add: power_int_minus_divide)
qed

lemma toFixed1_err:
  assumes "\<bar>x\<bar> < 10 ^ 21"
  obtains d where "toFixed1 (Fin x) = Decimal d" "\<bar>d - x\<bar> \<le> 1 / 20"
proof -
  define F where "F = \<lfloor>\<bar>x\<bar> * 10 + 1 / 2\<rfloor>"
  have "of_int F \<le> \<bar>x\<bar> * 10 + 1 / 2" "\<bar>x\<bar> * 10 + 1 / 2 < of_int F + 1"
    unfolding F_def by linarith+
  then have e: "\<bar>of_int F / 10 - \<bar>x\<bar>\<bar> \<le> 1 / 20" by linarith
  have "\<bar>sgn x * (of_int F / 10) - x\<bar> \<le> 1 / 20"
    using e by (cases "x = 0"; cases "0 < x") (simp_all add: sgn_if abs_if split: if_splits)
  moreover have "toFixed1 (Fin x) = Decimal (sgn x * (of_int F / 10))"
    using assms by (simp add: F_def)
  ultimately show ?thesis by (intro that [of "sgn x * (of_int F / 10)"])
qed

lemma toFixed1_tenths:
  assumes "\<bar>x\<bar> < 10 ^ 21"
  shows "\<exists>n. toFixed1 (Fin x) = Decimal (of_int n / 10) \<and> \<bar>of_int n / 10 - x\<bar> \<le> 1 / 20 \<and>
    (\<forall>lo. of_int lo \<le> x * 10 \<longrightarrow> lo \<le> n) \<and> (\<forall>hi. x * 10 \<le> of_int hi \<longrightarrow> n \<le> hi)"
proof -
  define F where "F = \<lfloor>\<bar>x\<bar> * 10 + 1 / 2\<rfloor>"
  define n where "n = (if x < 0 then - F else F)"
  have fl: "of_int F \<le> \<bar>x\<bar> * 10 + 1 / 2" "\<bar>x\<bar> * 10 + 1 / 2 < of_int F + 1"
    unfolding F_def by linarith+
  have F0: "0 \<le> F" unfolding F_def by (simp add: le_floor_iff)
  have sg: "sgn x * (of_int F / 10) = of_int n / 10"
    using fl by (cases "x = 0"; cases "0 < x") (simp_all add: n_def sgn_if F_def)
  have tf: "toFixed1 (Fin x) = Decimal (of_int n / 10)"
    using assms sg by (simp add: F_def [symmetric])
  have nF: "rat_of_int n = (if x < 0 then - of_int F else of_int F)"
    by (simp add: n_def)
  have ax: "\<bar>x\<bar> = (if x < 0 then - x else x)" by (simp add: abs_if)
  have er: "\<bar>of_int n / 10 - x\<bar> \<le> 1 / 20"
  proof (cases "x < 0")
    case True
    with nF ax have "rat_of_int n = - of_int F" "\<bar>x\<bar> = - x" by simp_all
    with fl show ?thesis by linarith
  next
    case False
    with nF ax have "rat_of_int n = of_int F" "\<bar>x\<bar> = x" by simp_all
    with fl show ?thesis by linarith
  qed
  have lo: "lo \<le> n" if "of_int lo \<le> x * 10" for lo
  proof -
    have "rat_of_int lo < of_int n + 1"
    proof (cases "x < 0")
      case True
      with nF ax have "rat_of_int n = - of_int F" "\<bar>x\<bar> = - x" by simp_all
      with fl that show ?thesis by linarith
    next
      case False
      with nF ax have "rat_of_int n = of_int F" "\<bar>x\<bar> = x" by simp_all
      with fl that show ?thesis by linarith
    qed
    then have "lo < n + 1" by (metis of_int_1 of_int_add of_int_less_iff)
    then show ?thesis by simp
  qed
  have hi: "n \<le> hi" if "x * 10 \<le> of_int hi" for hi
  proof -
    have "rat_of_int n < of_int hi + 1"
    proof (cases "x < 0")
      case True
      with nF ax have "rat_of_int n = - of_int F" "\<bar>x\<bar> = - x" by simp_all
      with fl that show ?thesis by linarith
    next
      case False
      with nF ax have "rat_of_int n = of_int F" "\<bar>x\<bar> = x" by simp_all
      with fl that show ?thesis by linarith
    qed
    then have "n < hi + 1" by (metis of_int_1 of_int_add of_int_less_iff)
    then show ?thesis by simp
  qed
  show ?thesis using tf er lo hi by blast
qed

lemma rnd64_tenths_fixed:
  assumes "\<bar>rat_of_int n / 10\<bar> < 2 ^ 44" "rnd64 (of_int n / 10) = Fin r"
  shows "toFixed1 (Fin r) = Decimal (of_int n / 10)"
proof -
  obtain r' where "rnd64 (of_int n / 10) = Fin r'" "\<bar>r' - of_int n / 10\<bar> \<le> 1 / 1024"
    using assms(1) by (rule rnd64_step)
  with assms(2) have er: "\<bar>r - of_int n / 10\<bar> \<le> 1 / 1024" by simp
  then have e: "r - of_int n / 10 \<le> 1 / 1024" "of_int n / 10 - r \<le> 1 / 1024" by linarith+
  have small: "\<bar>r\<bar> < 10 ^ 21" using assms(1) e by simp
  consider "n = 0" | "1 \<le> n" | "n \<le> - 1" by linarith
  then show ?thesis
  proof cases
    case 1
    then have "r = 0" using assms(2) by (simp add: rnd64_zero)
    then show ?thesis using 1 by simp
  next
    case 2
    then have n1: "(1::rat) \<le> of_int n" by simp
    then have rpos: "0 < r" using e by linarith
    have "\<lfloor>r * 10 + 1 / 2\<rfloor> = n"
      by (rule floor_unique) (use e in linarith)+
    then show ?thesis using rpos small by (simp add: abs_if)
  next
    case 3
    then have n1: "of_int n \<le> (- 1::rat)" by (metis of_int_1 of_int_le_iff of_int_minus)
    then have rneg: "r < 0" using e by linarith
    have "\<lfloor>- r * 10 + 1 / 2\<rfloor> = - n"
      by (rule floor_unique) (use e in simp, use e in simp)
    then show ?thesis using rneg small by (simp add: abs_if)
  qed
qed

lemma round1_plausible:
  assumes "- 90 \<le> a" "a \<le> 60"
  obtains n r where "round1 (Fin a) = Fin r" "rnd64 (of_int n / 10) = Fin r"
    "\<bar>of_int n / 10 - a\<bar> \<le> 1 / 20" "- 90 \<le> r" "r \<le> 60" "round1 (Fin r) = Fin r"
    "- 900 \<le> n" "n \<le> 600"
proof -
  have "\<bar>a\<bar> < 10 ^ 21" using assms by simp
  from toFixed1_tenths [OF this]
  obtain n where n: "toFixed1 (Fin a) = Decimal (of_int n / 10)"
    "\<bar>of_int n / 10 - a\<bar> \<le> 1 / 20"
    "\<And>lo. of_int lo \<le> a * 10 \<Longrightarrow> lo \<le> n" "\<And>hi. a * 10 \<le> of_int hi \<Longrightarrow> n \<le> hi"
    by blast
  have nlo: "- 900 \<le> n" using assms(1) by (intro n(3)) simp
  have nhi: "n \<le> 600" using assms(2) by (intro n(4)) simp
  define q :: rat where "q = of_int n / 10"
  have qlo: "- 90 \<le> q" and qhi: "q \<le> 60" using nlo nhi by (simp_all add: q_def)
  have "\<bar>q\<bar> < 2 powi (6 + 1)" using qlo qhi by simp
  then obtain r where r: "rnd64 q = Fin r" "0 \<le> q \<Longrightarrow> 0 \<le> r" "q \<le> 0 \<Longrightarrow> r \<le> 0"
    by (rule rnd64_finite) simp_all
  have rb: "- 90 \<le> r \<and> r \<le> 60"
  proof (cases "0 \<le> q")
    case True
    then have "\<bar>q\<bar> \<le> 60" using qhi by simp
    then obtain r' where "rnd64 q = Fin r'" "\<bar>r'\<bar> \<le> 60"
      by (rule rnd64_bounded [where M = "60 * 2 ^ 47" and k = 5])
         (simp_all add: power_int_minus_divide)
    with r(1) r(2) [OF True] show ?thesis by simp
  next
    case False
    then have "\<bar>q\<bar> \<le> 90" using qlo by simp
    then obtain r' where "rnd64 q = Fin r'" "\<bar>r'\<bar> \<le> 90"
      by (rule rnd64_bounded [where M = "90 * 2 ^ 46" and k = 6])
         (simp_all add: power_int_minus_divide)
    with r(1) r(3) False show ?thesis by simp
  qed
  have "\<bar>rat_of_int n / 10\<bar> < 2 ^ 44" using qlo qhi by (simp add: q_def)
  then have "toFixed1 (Fin r) = Decimal (of_int n / 10)"
    using r(1) unfolding q_def by (rule rnd64_tenths_fixed)
  then have idem: "round1 (Fin r) = Fin r"
    using r(1) by (simp add: round1_def q_def del: toFixed1.simps)
  have r1: "round1 (Fin a) = Fin r"
    using r(1) by (simp add: round1_def n(1) q_def del: toFixed1.simps)
  show ?thesis using r1 r(1) n(2) rb idem nlo nhi unfolding q_def
    by (intro that [of r n]) simp_all
qed

lemma floor_rat_numeral_div: "\<lfloor>(numeral a :: rat) / numeral b\<rfloor> = numeral a div numeral b"
  by (metis floor_divide_of_int_eq of_int_numeral)

lemma rnd64_normal:
  assumes "2 powi k \<le> \<bar>q\<bar>" "\<bar>q\<bar> < 2 powi (k + 1)" "- 1022 \<le> k" "k \<le> 1022"
    "m = round_half_even (\<bar>q\<bar> / 2 powi (k - 52))"
  shows "rnd64 q = Fin (sgn q * (of_int m * 2 powi (k - 52)))"
proof -
  have pos: "0 < \<bar>q\<bar>" using assms(1) powi_pos2 [of k] by linarith
  then have nz: "q \<noteq> 0" by simp
  have ik: "ilog2 \<bar>q\<bar> = k" using pos assms(1,2) by (rule ilog2_unique)
  have e: "k = max (ilog2 \<bar>q\<bar>) (- 1022)" using assms(3) by (simp add: ik)
  note mf = mant_facts [OF pos assms(2) assms(5)]
  have "k + 1 \<le> 1023" using assms(4) by simp
  from powi_mono2 [OF this] mf(2) have "of_int m * (2::rat) powi (k - 52) \<le> 2 powi 1023" by linarith
  moreover have "(2::rat) powi 1023 < 2 powi 1024" by (rule powi_strict2) simp
  ultimately have "\<not> 2 powi 1024 \<le> of_int m * (2::rat) powi (k - 52)" by linarith
  with rnd64_unfold [OF nz e assms(5)] show ?thesis by (simp only: if_False)
qed

lemma rnd64_dyadic:
  assumes "\<bar>n\<bar> < 2 ^ 53" "j \<le> 1000"
  shows "rnd64 (of_int n / 2 ^ j) = Fin (of_int n / 2 ^ j)"
proof (cases "n = 0")
  case True
  then show ?thesis by (simp add: rnd64_zero)
next
  case False
  define a :: rat where "a = of_int \<bar>n\<bar> / 2 ^ j"
  have aq: "\<bar>rat_of_int n / 2 ^ j\<bar> = a" by (simp add: a_def)
  have "1 \<le> \<bar>n\<bar>" using False by simp
  then have n1: "(1::rat) \<le> of_int \<bar>n\<bar>" by (simp only: of_int_1_le_iff)
  then have apos: "0 < a" by (simp add: a_def)
  define k where "k = ilog2 a"
  note b = ilog2_bounds [OF apos, folded k_def]
  have "rat_of_int \<bar>n\<bar> < 2 ^ 53" using assms(1)
    by (metis of_int_less_iff of_int_numeral of_int_power)
  then have "a < 2 ^ 53 / 2 ^ j" by (simp add: a_def divide_strict_right_mono)
  also have "(2::rat) ^ 53 / 2 ^ j = 2 powi (int 53 - int j)"
    by (subst power_int_diff) simp_all
  finally have "a < 2 powi ((52 - int j) + 1)" by (simp add: algebra_simps)
  with apos have kup: "k \<le> 52 - int j" unfolding k_def by (rule ilog2_le)
  have alow: "2 powi (- int j) \<le> a"
    using n1 by (simp add: a_def power_int_minus_divide divide_right_mono)
  have klo: "- int j \<le> k"
  proof (rule ccontr)
    assume "\<not> - int j \<le> k"
    then have "k + 1 \<le> - int j" by simp
    from powi_mono2 [OF this] b alow show False by linarith
  qed
  define i where "i = nat (52 - k - int j)"
  have ki: "k - 52 = - int (i + j)" using kup by (simp add: i_def)
  have pk: "(2::rat) powi (k - 52) = 1 / (2 ^ i * 2 ^ j)"
    unfolding ki power_int_minus_divide power_int_of_nat by (simp add: power_add)
  have rep: "a = of_int (\<bar>n\<bar> * 2 ^ i) * 2 powi (k - 52)"
    by (simp add: pk a_def)
  have k1: "- 1022 \<le> k" "k \<le> 1023" using klo kup assms(2) by simp_all
  show ?thesis
    using b k1 rep unfolding aq [symmetric]
    by (intro rnd64_exact [where k = k and M = "\<bar>n\<bar> * 2 ^ i"]) simp_all
qed

lemma double_1_3: "rnd64 (13 / 10) = Fin (5854679515581645 / 4503599627370496)"
proof -
  have m: "5854679515581645 = round_half_even (\<bar>13 / 10 :: rat\<bar> / 2 powi (0 - 52))"
    by (simp add: round_half_even_def Let_def power_int_minus_divide floor_rat_numeral_div)
  show ?thesis
    using rnd64_normal [where q = "13 / 10" and k = 0, OF _ _ _ _ m]
    by (simp add: power_int_minus_divide)
qed

lemma double_33_1: "rnd64 (331 / 10) = Fin (4658410864561357 / 140737488355328)"
proof -
  have m: "4658410864561357 = round_half_even (\<bar>331 / 10 :: rat\<bar> / 2 powi (5 - 52))"
    by (simp add: round_half_even_def Let_def power_int_minus_divide floor_rat_numeral_div)
  show ?thesis
    using rnd64_normal [where q = "331 / 10" and k = 5, OF _ _ _ _ m]
    by (simp add: power_int_minus_divide)
qed

lemma double_0_6: "rnd64 (3 / 5) = Fin (5404319552844595 / 9007199254740992)"
proof -
  have m: "5404319552844595 = round_half_even (\<bar>3 / 5 :: rat\<bar> / 2 powi (- 1 - 52))"
    by (simp add: round_half_even_def Let_def power_int_minus_divide floor_rat_numeral_div)
  show ?thesis
    using rnd64_normal [where q = "3 / 5" and k = "- 1", OF _ _ _ _ m]
    by (simp add: power_int_minus_divide)
qed

lemma double_21_4: "rnd64 (107 / 5) = Fin (3011782250804019 / 140737488355328)"
proof -
  have m: "6023564501608038 = round_half_even (\<bar>107 / 5 :: rat\<bar> / 2 powi (4 - 52))"
    by (simp add: round_half_even_def Let_def power_int_minus_divide floor_rat_numeral_div)
  show ?thesis
    using rnd64_normal [where q = "107 / 5" and k = 4, OF _ _ _ _ m]
    by (simp add: power_int_minus_divide)
qed

section \<open>Cache reads and clearing\<close>

lemma cacheStatus_cases:
  "cacheStatus age = (if age \<le> 3600000 then offline else outdated)"
  by (simp add: cacheStatus_def oneHour_def twentyFourHours_def)

lemma getCachedWeatherData_None:
  "getCachedWeatherData now None = Inl noCachedDataAvailable"
  by (simp add: getCachedWeatherData_def)

lemma getCachedWeatherData_Some:
  "getCachedWeatherData now (Some c) =
     Inr \<lparr>temperature = temperature c, temperatureUnit = temperatureUnit c,
          location = location c, lastUpdate = lastUpdate c,
          connectionStatus = cacheStatus (now - cachedAt c)\<rparr>"
  by (simp add: getCachedWeatherData_def)

text \<open>
  C7: the two tests of the expiration rule (older than 24 hours, older than one hour)
  give, for every cache age, the label of the single-threshold rule: \<open>offline\<close> up to one
  hour and \<open>outdated\<close> beyond, so the 24-hour test has no observable effect.
\<close>

theorem C7_cacheStatus_single_threshold:
  "cacheStatus cacheAge = cacheStatus_single cacheAge"
  by (simp add: cacheStatus_cases cacheStatus_single_def)

text \<open>
  C2: \<open>getCachedWeatherData\<close> fails, with \<open>noCachedDataAvailable\<close>, exactly when the
  slot is empty. On a populated slot it returns the cached fields with the status
  \<open>offline\<close> when the age \<open>now - cachedAt\<close> is at most one hour and \<open>outdated\<close> when it
  is more; ages of 30 minutes, 2 hours and 25 hours give \<open>offline\<close>, \<open>outdated\<close> and
  \<open>outdated\<close>.
\<close>

theorem C2_getCachedWeatherData:
  "((\<exists>e. getCachedWeatherData now weatherCache = Inl e) \<longleftrightarrow> weatherCache = None) \<and>
   getCachedWeatherData now None = Inl noCachedDataAvailable \<and>
   getCachedWeatherData now (Some c) =
     Inr \<lparr>temperature = temperature c, temperatureUnit = temperatureUnit c,
          location = location c, lastUpdate = lastUpdate c,
          connectionStatus =
            (if now - cachedAt c \<le> 60 * 60 * 1000 then offline else outdated)\<rparr> \<and>
   getCachedWeatherData (cachedAt c + 30 * 60 * 1000) (Some c) =
     Inr \<lparr>temperature = temperature c, temperatureUnit = temperatureUnit c,
          location = location c, lastUpdate = lastUpdate c, connectionStatus = offline\<rparr> \<and>
   getCachedWeatherData (cachedAt c + 2 * 60 * 60 * 1000) (Some c) =
     Inr \<lparr>temperature = temperature c, temperatureUnit = temperatureUnit c,
          location = location c, lastUpdate = lastUpdate c, connectionStatus = outdated\<rparr> \<and>
   getCachedWeatherData (cachedAt c + 25 * 60 * 60 * 1000) (Some c) =
     Inr \<lparr>temperature = temperature c, temperatureUnit = temperatureUnit c,
          location = location c, lastUpdate = lastUpdate c, connectionStatus = outdated\<rparr>"
  by (cases weatherCache)
     (simp_all add: getCachedWeatherData_None getCachedWeatherData_Some cacheStatus_cases)

text \<open>
  C8: \<open>clearCache\<close> empties the slot from any state and has no failure; right after it
  \<open>hasCachedData\<close> is false and \<open>getCachedWeatherData\<close> fails with
  \<open>noCachedDataAvailable\<close>. \<open>hasCachedData\<close> is true exactly on a populated slot; it
  returns a boolean only, so it leaves the slot as it is.
\<close>

theorem C8_clearCache:
  "clearCache weatherCache = None \<and>
   hasCachedData (clearCache weatherCache) = False \<and>
   getCachedWeatherData now (clearCache weatherCache) = Inl noCachedDataAvailable \<and>
   hasCachedData None = False \<and>
   hasCachedData (Some c) = True"
  by (simp add: clearCache_def hasCachedData_def getCachedWeatherData_None)

section \<open>Fetching: failure\<close>

text \<open>The named failures of the \<open>try\<close> block, and the error each raises.\<close>

lemma fetchAttempt_rejected:
  "fetchAttempt (FetchRejected e) now = Inl (Thrown e)"
  by (simp add: fetchAttempt_def)

lemma fetchAttempt_not_ok:
  "fetchAttempt (Response False body) now = Inl weatherApiRequestFailed"
  by (simp add: fetchAttempt_def)

lemma fetchAttempt_json_rejected:
  "fetchAttempt (Response True (JsonRejected e)) now = Inl (Thrown e)"
  by (simp add: fetchAttempt_def)

lemma fetchAttempt_body:
  "fetchAttempt (Response True (JsonBody data)) now =
     (if num_less (temp_c (current data)) (- 90) \<or> num_greater (temp_c (current data)) 60
      then Inl temperatureOutOfRange
      else Inr (buildWeatherData data,
                Some \<lparr>temperature = temperature (buildWeatherData data),
                      temperatureUnit = temperatureUnit (buildWeatherData data),
                      location = location (buildWeatherData data),
                      lastUpdate = lastUpdate (buildWeatherData data),
                      connectionStatus = connectionStatus (buildWeatherData data),
                      cachedAt = now\<rparr>))"
  by (simp add: fetchAttempt_def Let_def)

lemma fetchWeatherData_failure:
  "fetchAttempt (provider loc) now = Inl err \<Longrightarrow>
   fetchWeatherData provider now loc weatherCache =
     (case weatherCache of
        Some c \<Rightarrow> (getCachedWeatherData now weatherCache, weatherCache)
      | None \<Rightarrow> (Inl err, weatherCache))"
  by (simp add: fetchWeatherData_def)

lemma cacheStatus_stale: "cacheStatus age = offline \<or> cacheStatus age = outdated"
  by (simp add: cacheStatus_cases)

text \<open>
  C1: when the attempt to fetch fails with an error \<open>err\<close>, whatever the reason (a
  rejected \<open>fetch\<close>, a response that is not \<open>ok\<close>, a body that cannot be read, a
  temperature out of range): on a populated slot \<open>fetchWeatherData\<close> returns what
  \<open>getCachedWeatherData\<close> returns, a reading whose status is \<open>offline\<close> or \<open>outdated\<close>,
  and no error; on an empty slot it fails with \<open>err\<close> itself.
\<close>

theorem C1_fetch_failure_fallback:
  assumes "fetchAttempt (provider loc) now = Inl err"
  shows "fst (fetchWeatherData provider now loc (Some c)) = getCachedWeatherData now (Some c) \<and>
         (\<exists>r. fst (fetchWeatherData provider now loc (Some c)) = Inr r \<and>
              (connectionStatus r = offline \<or> connectionStatus r = outdated)) \<and>
         fst (fetchWeatherData provider now loc None) = Inl err"
  using assms cacheStatus_stale [of "now - cachedAt c"]
  by (auto simp add: fetchWeatherData_failure getCachedWeatherData_Some)

theorem C1_fetch_failure_fallback_witness:
  "fetchAttempt ((\<lambda>l. FetchRejected ''ECONNREFUSED'') ''Lisbon'') 7200001 =
     Inl (Thrown ''ECONNREFUSED'') \<and>
   fst (fetchWeatherData (\<lambda>l. FetchRejected ''ECONNREFUSED'') 7200001 ''Lisbon''
     (Some \<lparr>temperature = Fin 20, temperatureUnit = celsius, location = ''Lisbon, Lisboa'',
            lastUpdate = ''2024-01-01 10:00'', connectionStatus = online, cachedAt = 0\<rparr>)) =
     Inr \<lparr>temperature = Fin 20, temperatureUnit = celsius, location = ''Lisbon, Lisboa'',
          lastUpdate = ''2024-01-01 10:00'', connectionStatus = outdated\<rparr> \<and>
   fst (fetchWeatherData (\<lambda>l. FetchRejected ''ECONNREFUSED'') 7200001 ''Lisbon'' None) =
     Inl (Thrown ''ECONNREFUSED'')"
  using C1_fetch_failure_fallback [of "\<lambda>l. FetchRejected ''ECONNREFUSED''" "''Lisbon''" 7200001
      "Thrown ''ECONNREFUSED''"
      "\<lparr>temperature = Fin 20, temperatureUnit = celsius, location = ''Lisbon, Lisboa'',
        lastUpdate = ''2024-01-01 10:00'', connectionStatus = online, cachedAt = 0\<rparr>"]
  by (simp add: fetchAttempt_rejected getCachedWeatherData_Some cacheStatus_cases)

text \<open>
  C10: a failing fetch leaves the slot, with its contents and its \<open>cachedAt\<close>, as it
  was, on a populated slot (the fallback) and on an empty one (the propagated error).
\<close>

theorem C10_fetch_failure_keeps_cache:
  assumes "fetchAttempt (provider loc) now = Inl err"
  shows "snd (fetchWeatherData provider now loc weatherCache) = weatherCache"
  using assms by (simp add: fetchWeatherData_failure split: option.split)

theorem C10_fetch_failure_keeps_cache_witness:
  "fetchAttempt ((\<lambda>l. Response False (JsonRejected [])) ''Lisbon'') 5 =
     Inl weatherApiRequestFailed \<and>
   snd (fetchWeatherData (\<lambda>l. Response False (JsonRejected [])) 5 ''Lisbon''
     (Some \<lparr>temperature = Fin 20, temperatureUnit = celsius, location = ''Lisbon, Lisboa'',
            lastUpdate = ''2024-01-01 10:00'', connectionStatus = online, cachedAt = 0\<rparr>)) =
     Some \<lparr>temperature = Fin 20, temperatureUnit = celsius, location = ''Lisbon, Lisboa'',
           lastUpdate = ''2024-01-01 10:00'', connectionStatus = online, cachedAt = 0\<rparr>"
  using C10_fetch_failure_keeps_cache [of "\<lambda>l. Response False (JsonRejected [])" "''Lisbon''" 5
      weatherApiRequestFailed
      "Some \<lparr>temperature = Fin 20, temperatureUnit = celsius, location = ''Lisbon, Lisboa'',
        lastUpdate = ''2024-01-01 10:00'', connectionStatus = online, cachedAt = 0\<rparr>"]
  by (simp add: fetchAttempt_not_ok)

section \<open>Temperature conversion\<close>

lemma convertTemperature_cases:
  "convertTemperature \<lparr>value_of = v, from_unit = f, to_unit = t\<rparr> =
     convertTemperature_spec v f t"
  by (cases f; cases t) (simp_all add: convertTemperature_def round1_def del: toFixed1.simps)

lemma sample_c_f:
  "convertTemperature \<lparr>value_of = Fin (5 / 8), from_unit = celsius, to_unit = fahrenheit\<rparr> =
     rnd64 (331 / 10)"
proof -
  have a: "rnd64 (45 / 8) = Fin (45 / 8)" using rnd64_dyadic [of 45 3] by simp
  have b: "rnd64 (9 / 8) = Fin (9 / 8)" using rnd64_dyadic [of 9 3] by simp
  have c: "rnd64 (265 / 8) = Fin (265 / 8)" using rnd64_dyadic [of 265 3] by simp
  show ?thesis
    by (simp add: convertTemperature_cases round1_def num_times_def num_divide_def num_plus_def
        a b c floor_rat_numeral_div)
qed

lemma sample_f_c:
  "convertTemperature \<lparr>value_of = Fin (265 / 8), from_unit = fahrenheit, to_unit = celsius\<rparr> =
     rnd64 (3 / 5)"
proof -
  have a: "rnd64 (45 / 8) = Fin (45 / 8)" using rnd64_dyadic [of 45 3] by simp
  have b: "rnd64 (9 / 8) = Fin (9 / 8)" using rnd64_dyadic [of 9 3] by simp
  have c: "rnd64 (5 / 8) = Fin (5 / 8)" using rnd64_dyadic [of 5 3] by simp
  show ?thesis
    by (simp add: convertTemperature_cases round1_def num_times_def num_divide_def num_minus_def
        a b c floor_rat_numeral_div)
qed

lemma sample_same:
  "convertTemperature \<lparr>value_of = Fin (5 / 4), from_unit = celsius, to_unit = celsius\<rparr> =
     rnd64 (13 / 10)"
  by (simp add: convertTemperature_cases round1_def floor_rat_numeral_div)

lemma sample_same_neg:
  "convertTemperature \<lparr>value_of = Fin (- 5 / 4), from_unit = fahrenheit, to_unit = fahrenheit\<rparr> =
     rnd64 (- 13 / 10)"
  by (simp add: convertTemperature_cases round1_def floor_rat_numeral_div)

lemma round1_tenths:
  assumes "\<bar>y\<bar> < 10 ^ 21"
  shows "\<exists>n. round1 (Fin y) = rnd64 (of_int n / 10) \<and> \<bar>of_int n / 10 - y\<bar> \<le> 1 / 20"
proof -
  from toFixed1_tenths [OF assms]
  obtain n where "toFixed1 (Fin y) = Decimal (of_int n / 10)" "\<bar>of_int n / 10 - y\<bar> \<le> 1 / 20"
    by blast
  then show ?thesis by (auto simp add: round1_def simp del: toFixed1.simps)
qed

lemma celsius_to_fahrenheit_rounded:
  assumes "\<bar>x\<bar> \<le> 10 ^ 12"
  shows "\<exists>y n. \<bar>y - (x * 9 / 5 + 32)\<bar> \<le> 1 / 256 \<and>
     convertTemperature \<lparr>value_of = Fin x, from_unit = celsius, to_unit = fahrenheit\<rparr> =
       rnd64 (of_int n / 10) \<and>
     \<bar>of_int n / 10 - y\<bar> \<le> 1 / 20"
proof -
  have bx: "x \<le> 1000000000000" "- 1000000000000 \<le> x" using assms by simp_all
  have "\<bar>x * 9\<bar> < 2 ^ 44" using bx by simp
  then obtain x1 where x1: "rnd64 (x * 9) = Fin x1" and "\<bar>x1 - x * 9\<bar> \<le> 1 / 1024"
    by (rule rnd64_step)
  then have e1: "x1 - x * 9 \<le> 1 / 1024" "x * 9 - x1 \<le> 1 / 1024" by linarith+
  have "\<bar>x1 / 5\<bar> < 2 ^ 44" using bx e1 by simp
  then obtain x2 where x2: "rnd64 (x1 / 5) = Fin x2" and "\<bar>x2 - x1 / 5\<bar> \<le> 1 / 1024"
    by (rule rnd64_step)
  then have e2: "x2 - x1 / 5 \<le> 1 / 1024" "x1 / 5 - x2 \<le> 1 / 1024" by linarith+
  have "\<bar>x2 + 32\<bar> < 2 ^ 44" using bx e1 e2 by simp
  then obtain x3 where x3: "rnd64 (x2 + 32) = Fin x3" and "\<bar>x3 - (x2 + 32)\<bar> \<le> 1 / 1024"
    by (rule rnd64_step)
  then have e3: "x3 - (x2 + 32) \<le> 1 / 1024" "x2 + 32 - x3 \<le> 1 / 1024" by linarith+
  have near: "\<bar>x3 - (x * 9 / 5 + 32)\<bar> \<le> 1 / 256" using e1 e2 e3 by linarith
  have "\<bar>x3\<bar> < 10 ^ 21" using bx e1 e2 e3 by simp
  from round1_tenths [OF this]
  obtain n where n: "round1 (Fin x3) = rnd64 (of_int n / 10)" "\<bar>of_int n / 10 - x3\<bar> \<le> 1 / 20"
    by blast
  have "convertTemperature \<lparr>value_of = Fin x, from_unit = celsius, to_unit = fahrenheit\<rparr> =
      rnd64 (of_int n / 10)"
    by (simp add: convertTemperature_cases num_times_def num_divide_def num_plus_def x1 x2 x3 n(1))
  with near n(2) show ?thesis by blast
qed

lemma fahrenheit_to_celsius_rounded:
  assumes "\<bar>x\<bar> \<le> 10 ^ 12"
  shows "\<exists>y n. \<bar>y - (x - 32) * 5 / 9\<bar> \<le> 1 / 256 \<and>
     convertTemperature \<lparr>value_of = Fin x, from_unit = fahrenheit, to_unit = celsius\<rparr> =
       rnd64 (of_int n / 10) \<and>
     \<bar>of_int n / 10 - y\<bar> \<le> 1 / 20"
proof -
  have bx: "x \<le> 1000000000000" "- 1000000000000 \<le> x" using assms by simp_all
  have "\<bar>x - 32\<bar> < 2 ^ 44" using bx by simp
  then obtain y1 where y1: "rnd64 (x - 32) = Fin y1" and "\<bar>y1 - (x - 32)\<bar> \<le> 1 / 1024"
    by (rule rnd64_step)
  then have e1: "y1 - (x - 32) \<le> 1 / 1024" "x - 32 - y1 \<le> 1 / 1024" by linarith+
  have "\<bar>y1 * 5\<bar> < 2 ^ 44" using bx e1 by simp
  then obtain y2 where y2: "rnd64 (y1 * 5) = Fin y2" and "\<bar>y2 - y1 * 5\<bar> \<le> 1 / 1024"
    by (rule rnd64_step)
  then have e2: "y2 - y1 * 5 \<le> 1 / 1024" "y1 * 5 - y2 \<le> 1 / 1024" by linarith+
  have "\<bar>y2 / 9\<bar> < 2 ^ 44" using bx e1 e2 by simp
  then obtain y3 where y3: "rnd64 (y2 / 9) = Fin y3" and "\<bar>y3 - y2 / 9\<bar> \<le> 1 / 1024"
    by (rule rnd64_step)
  then have e3: "y3 - y2 / 9 \<le> 1 / 1024" "y2 / 9 - y3 \<le> 1 / 1024" by linarith+
  have "(x - 32) * 5 / 9 = x * 5 / 9 - 160 / 9" by (simp add: algebra_simps diff_divide_distrib)
  then have near: "\<bar>y3 - (x - 32) * 5 / 9\<bar> \<le> 1 / 256" using e1 e2 e3 by linarith
  have "\<bar>y3\<bar> < 10 ^ 21" using bx e1 e2 e3 by simp
  from round1_tenths [OF this]
  obtain n where n: "round1 (Fin y3) = rnd64 (of_int n / 10)" "\<bar>of_int n / 10 - y3\<bar> \<le> 1 / 20"
    by blast
  have "convertTemperature \<lparr>value_of = Fin x, from_unit = fahrenheit, to_unit = celsius\<rparr> =
      rnd64 (of_int n / 10)"
    by (simp add: convertTemperature_cases num_times_def num_divide_def num_minus_def y1 y2 y3 n(1))
  with near n(2) show ?thesis by blast
qed

lemma same_unit_rounded:
  assumes "\<bar>x\<bar> < 10 ^ 21"
  shows "\<exists>n. convertTemperature \<lparr>value_of = Fin x, from_unit = u, to_unit = u\<rparr> =
       rnd64 (of_int n / 10) \<and> \<bar>of_int n / 10 - x\<bar> \<le> 1 / 20"
  using round1_tenths [OF assms] by (cases u) (simp_all add: convertTemperature_cases)

lemmas conversion_evals =
  convertTemperature_cases num_times_def num_divide_def num_plus_def num_minus_def
  rnd64_zero rnd64_numeral round1_numeral round1_zero

text \<open>
  C5: \<open>convertTemperature\<close> has a value on every input, the value of the conversion as
  specified: the input rounded to one decimal when the units are equal,
  \<open>v * 9 / 5 + 32\<close> rounded from Celsius to Fahrenheit, \<open>(v - 32) * 5 / 9\<close> rounded from
  Fahrenheit to Celsius. The rounding is to one decimal place: a finite number of
  magnitude below \<open>10\<^sup>2\<^sup>1\<close> is rounded to the number nearest to a decimal \<open>n / 10\<close> that
  is within 0.05 of it, a larger one and the non-finite ones are left as they are; and
  for an input of magnitude at most \<open>10\<^sup>1\<^sup>2\<close> each conversion is such a rounding of a
  number within \<open>1 / 256\<close> of the exact value of its formula. 0 and 100 degrees Celsius
  are 32 and 212 degrees Fahrenheit, and 32 degrees Fahrenheit are 0 degrees Celsius;
  1.25 and -1.25 with equal units give 1.3 and -1.3, 0.625 degrees Celsius give 33.1
  degrees Fahrenheit, and 33.125 degrees Fahrenheit give 0.6 degrees Celsius.
\<close>

theorem C5_convertTemperature:
  "convertTemperature \<lparr>value_of = v, from_unit = f, to_unit = t\<rparr> =
     convertTemperature_spec v f t \<and>
   (\<bar>w\<bar> < 10 ^ 21 \<longrightarrow>
      (\<exists>n. round1 (Fin w) = rnd64 (of_int n / 10) \<and> \<bar>of_int n / 10 - w\<bar> \<le> 1 / 20)) \<and>
   (10 ^ 21 \<le> \<bar>w\<bar> \<longrightarrow> round1 (Fin w) = rnd64 w) \<and>
   round1 PosInf = PosInf \<and> round1 NegInf = NegInf \<and> round1 NaN = NaN \<and>
   (\<bar>x\<bar> \<le> 10 ^ 12 \<longrightarrow>
      (\<exists>n. convertTemperature \<lparr>value_of = Fin x, from_unit = u, to_unit = u\<rparr> =
             rnd64 (of_int n / 10) \<and>
           \<bar>of_int n / 10 - x\<bar> \<le> 1 / 20) \<and>
      (\<exists>y n. \<bar>y - (x * 9 / 5 + 32)\<bar> \<le> 1 / 256 \<and>
           convertTemperature \<lparr>value_of = Fin x, from_unit = celsius, to_unit = fahrenheit\<rparr> =
             rnd64 (of_int n / 10) \<and>
           \<bar>of_int n / 10 - y\<bar> \<le> 1 / 20) \<and>
      (\<exists>y n. \<bar>y - (x - 32) * 5 / 9\<bar> \<le> 1 / 256 \<and>
           convertTemperature \<lparr>value_of = Fin x, from_unit = fahrenheit, to_unit = celsius\<rparr> =
             rnd64 (of_int n / 10) \<and>
           \<bar>of_int n / 10 - y\<bar> \<le> 1 / 20)) \<and>
   convertTemperature \<lparr>value_of = Fin 0, from_unit = celsius, to_unit = fahrenheit\<rparr> =
     Fin 32 \<and>
   convertTemperature \<lparr>value_of = Fin 100, from_unit = celsius, to_unit = fahrenheit\<rparr> =
     Fin 212 \<and>
   convertTemperature \<lparr>value_of = Fin 32, from_unit = fahrenheit, to_unit = celsius\<rparr> =
     Fin 0 \<and>
   convertTemperature \<lparr>value_of = Fin (5 / 4), from_unit = celsius, to_unit = celsius\<rparr> =
     Fin (5854679515581645 / 4503599627370496) \<and>
   convertTemperature \<lparr>value_of = Fin (- 5 / 4), from_unit = fahrenheit, to_unit = fahrenheit\<rparr> =
     rnd64 (- 13 / 10) \<and>
   convertTemperature \<lparr>value_of = Fin (5 / 8), from_unit = celsius, to_unit = fahrenheit\<rparr> =
     Fin (4658410864561357 / 140737488355328) \<and>
   convertTemperature \<lparr>value_of = Fin (265 / 8), from_unit = fahrenheit, to_unit = celsius\<rparr> =
     Fin (5404319552844595 / 9007199254740992) \<and>
   rnd64 (13 / 10) = Fin (5854679515581645 / 4503599627370496) \<and>
   rnd64 (331 / 10) = Fin (4658410864561357 / 140737488355328) \<and>
   rnd64 (3 / 5) = Fin (5404319552844595 / 9007199254740992)"
proof -
  have big: "10 ^ 21 \<le> \<bar>w\<bar> \<longrightarrow> round1 (Fin w) = rnd64 w"
    by (simp add: round1_def)
  have inf: "round1 PosInf = PosInf \<and> round1 NegInf = NegInf \<and> round1 NaN = NaN"
    by (simp add: round1_def)
  have gen: "\<bar>x\<bar> \<le> 10 ^ 12 \<longrightarrow>
      (\<exists>n. convertTemperature \<lparr>value_of = Fin x, from_unit = u, to_unit = u\<rparr> =
             rnd64 (of_int n / 10) \<and>
           \<bar>of_int n / 10 - x\<bar> \<le> 1 / 20) \<and>
      (\<exists>y n. \<bar>y - (x * 9 / 5 + 32)\<bar> \<le> 1 / 256 \<and>
           convertTemperature \<lparr>value_of = Fin x, from_unit = celsius, to_unit = fahrenheit\<rparr> =
             rnd64 (of_int n / 10) \<and>
           \<bar>of_int n / 10 - y\<bar> \<le> 1 / 20) \<and>
      (\<exists>y n. \<bar>y - (x - 32) * 5 / 9\<bar> \<le> 1 / 256 \<and>
           convertTemperature \<lparr>value_of = Fin x, from_unit = fahrenheit, to_unit = celsius\<rparr> =
             rnd64 (of_int n / 10) \<and>
           \<bar>of_int n / 10 - y\<bar> \<le> 1 / 20)"
  proof
    assume h: "\<bar>x\<bar> \<le> 10 ^ 12"
    then have "\<bar>x\<bar> < 10 ^ 21" by simp
    from same_unit_rounded [OF this, of u] celsius_to_fahrenheit_rounded [OF h]
      fahrenheit_to_celsius_rounded [OF h]
    show "(\<exists>n. convertTemperature \<lparr>value_of = Fin x, from_unit = u, to_unit = u\<rparr> =
             rnd64 (of_int n / 10) \<and>
           \<bar>of_int n / 10 - x\<bar> \<le> 1 / 20) \<and>
      (\<exists>y n. \<bar>y - (x * 9 / 5 + 32)\<bar> \<le> 1 / 256 \<and>
           convertTemperature \<lparr>value_of = Fin x, from_unit = celsius, to_unit = fahrenheit\<rparr> =
             rnd64 (of_int n / 10) \<and>
           \<bar>of_int n / 10 - y\<bar> \<le> 1 / 20) \<and>
      (\<exists>y n. \<bar>y - (x - 32) * 5 / 9\<bar> \<le> 1 / 256 \<and>
           convertTemperature \<lparr>value_of = Fin x, from_unit = fahrenheit, to_unit = celsius\<rparr> =
             rnd64 (of_int n / 10) \<and>
           \<bar>of_int n / 10 - y\<bar> \<le> 1 / 20)"
      by blast
  qed
  have smp: "convertTemperature \<lparr>value_of = Fin 0, from_unit = celsius, to_unit = fahrenheit\<rparr> =
     Fin 32 \<and>
   convertTemperature \<lparr>value_of = Fin 100, from_unit = celsius, to_unit = fahrenheit\<rparr> =
     Fin 212 \<and>
   convertTemperature \<lparr>value_of = Fin 32, from_unit = fahrenheit, to_unit = celsius\<rparr> =
     Fin 0"
    by (simp add: conversion_evals)
  have small: "\<bar>w\<bar> < 10 ^ 21 \<longrightarrow>
      (\<exists>n. round1 (Fin w) = rnd64 (of_int n / 10) \<and> \<bar>of_int n / 10 - w\<bar> \<le> 1 / 20)"
    by (rule impI) (rule round1_tenths)
  have s1: "convertTemperature \<lparr>value_of = Fin (5 / 4), from_unit = celsius, to_unit = celsius\<rparr> =
     Fin (5854679515581645 / 4503599627370496)"
    by (simp only: sample_same double_1_3)
  have s2: "convertTemperature \<lparr>value_of = Fin (5 / 8), from_unit = celsius, to_unit = fahrenheit\<rparr> =
     Fin (4658410864561357 / 140737488355328)"
    by (simp only: sample_c_f double_33_1)
  have s3: "convertTemperature \<lparr>value_of = Fin (265 / 8), from_unit = fahrenheit, to_unit = celsius\<rparr> =
     Fin (5404319552844595 / 9007199254740992)"
    by (simp only: sample_f_c double_0_6)
  show ?thesis
    using convertTemperature_cases [of v f t] small big inf gen smp s1 sample_same_neg s2 s3
      double_1_3 double_33_1 double_0_6
    by blast
qed

theorem C5_convertTemperature_witness:
  "\<bar>5 / 4 :: rat\<bar> < 10 ^ 21 \<and> \<bar>5 / 8 :: rat\<bar> \<le> 10 ^ 12 \<and>
   (\<exists>n. round1 (Fin (5 / 4)) = rnd64 (of_int n / 10) \<and> \<bar>of_int n / 10 - 5 / 4\<bar> \<le> (1 / 20 :: rat)) \<and>
   round1 (Fin (5 / 4)) = rnd64 (13 / 10) \<and>
   (\<exists>y n. \<bar>y - (5 / 8 * 9 / 5 + 32)\<bar> \<le> (1 / 256 :: rat) \<and>
        convertTemperature \<lparr>value_of = Fin (5 / 8), from_unit = celsius, to_unit = fahrenheit\<rparr> =
          rnd64 (of_int n / 10) \<and>
        \<bar>of_int n / 10 - y\<bar> \<le> 1 / 20) \<and>
   convertTemperature \<lparr>value_of = Fin (5 / 8), from_unit = celsius, to_unit = fahrenheit\<rparr> =
     rnd64 (331 / 10)"
proof -
  have a: "\<bar>5 / 4 :: rat\<bar> < 10 ^ 21" and b: "\<bar>5 / 8 :: rat\<bar> \<le> 10 ^ 12" by simp_all
  have c: "round1 (Fin (5 / 4)) = rnd64 (13 / 10)"
    by (simp add: round1_def floor_rat_numeral_div)
  from C5_convertTemperature [of "Fin (5 / 4)" celsius celsius "5 / 4" "5 / 8" celsius] a b
  have "(\<exists>n. round1 (Fin (5 / 4)) = rnd64 (of_int n / 10) \<and>
          \<bar>of_int n / 10 - 5 / 4\<bar> \<le> (1 / 20 :: rat)) \<and>
    (\<exists>y n. \<bar>y - (5 / 8 * 9 / 5 + 32)\<bar> \<le> (1 / 256 :: rat) \<and>
        convertTemperature \<lparr>value_of = Fin (5 / 8), from_unit = celsius, to_unit = fahrenheit\<rparr> =
          rnd64 (of_int n / 10) \<and>
        \<bar>of_int n / 10 - y\<bar> \<le> 1 / 20)"
    by blast
  with a b c sample_c_f show ?thesis by blast
qed

section \<open>The round trip of a temperature\<close>

lemma double_2_1023: "rnd64 (2 ^ 1023) = Fin (2 ^ 1023)"
  by (rule rnd64_exact [where k = 1023 and M = "2 ^ 52"]) simp_all

lemma overflow_2_1023_times_9: "rnd64 (2 ^ 1023 * 9) = PosInf"
  by (rule rnd64_overflow) simp

lemma round_trip_bounded:
  assumes "\<bar>x\<bar> \<le> 10 ^ 12"
  shows "within_tenth
     (convertTemperature
        \<lparr>value_of = convertTemperature
           \<lparr>value_of = Fin x, from_unit = celsius, to_unit = fahrenheit\<rparr>,
         from_unit = fahrenheit, to_unit = celsius\<rparr>)
     (Fin x)"
proof -
  have bx: "x \<le> 1000000000000" "- 1000000000000 \<le> x" using assms by simp_all
  have "\<bar>x * 9\<bar> < 2 ^ 44" using bx by simp
  then obtain x1 where x1: "rnd64 (x * 9) = Fin x1" and "\<bar>x1 - x * 9\<bar> \<le> 1 / 1024"
    by (rule rnd64_step)
  then have e1: "x1 - x * 9 \<le> 1 / 1024" "x * 9 - x1 \<le> 1 / 1024" by linarith+
  have "\<bar>x1 / 5\<bar> < 2 ^ 44" using bx e1 by simp
  then obtain x2 where x2: "rnd64 (x1 / 5) = Fin x2" and "\<bar>x2 - x1 / 5\<bar> \<le> 1 / 1024"
    by (rule rnd64_step)
  then have e2: "x2 - x1 / 5 \<le> 1 / 1024" "x1 / 5 - x2 \<le> 1 / 1024" by linarith+
  have "\<bar>x2 + 32\<bar> < 2 ^ 44" using bx e1 e2 by simp
  then obtain x3 where x3: "rnd64 (x2 + 32) = Fin x3" and "\<bar>x3 - (x2 + 32)\<bar> \<le> 1 / 1024"
    by (rule rnd64_step)
  then have e3: "x3 - (x2 + 32) \<le> 1 / 1024" "x2 + 32 - x3 \<le> 1 / 1024" by linarith+
  have "\<bar>x3\<bar> < 10 ^ 21" using bx e1 e2 e3 by simp
  then obtain d1 where d1: "toFixed1 (Fin x3) = Decimal d1" and "\<bar>d1 - x3\<bar> \<le> 1 / 20"
    by (rule toFixed1_err)
  then have e4: "d1 - x3 \<le> 1 / 20" "x3 - d1 \<le> 1 / 20" by linarith+
  have "\<bar>d1\<bar> < 2 ^ 44" using bx e1 e2 e3 e4 by simp
  then obtain y0 where y0: "rnd64 d1 = Fin y0" and "\<bar>y0 - d1\<bar> \<le> 1 / 1024"
    by (rule rnd64_step)
  then have e5: "y0 - d1 \<le> 1 / 1024" "d1 - y0 \<le> 1 / 1024" by linarith+
  have fwd: "convertTemperature
      \<lparr>value_of = Fin x, from_unit = celsius, to_unit = fahrenheit\<rparr> = Fin y0"
    by (simp add: convertTemperature_cases round1_def num_times_def num_divide_def num_plus_def
        x1 x2 x3 d1 y0 del: toFixed1.simps)
  have "\<bar>y0 - 32\<bar> < 2 ^ 44" using bx e1 e2 e3 e4 e5 by simp
  then obtain y1 where y1: "rnd64 (y0 - 32) = Fin y1" and "\<bar>y1 - (y0 - 32)\<bar> \<le> 1 / 1024"
    by (rule rnd64_step)
  then have e6: "y1 - (y0 - 32) \<le> 1 / 1024" "y0 - 32 - y1 \<le> 1 / 1024" by linarith+
  have "\<bar>y1 * 5\<bar> < 2 ^ 44" using bx e1 e2 e3 e4 e5 e6 by simp
  then obtain y2 where y2: "rnd64 (y1 * 5) = Fin y2" and "\<bar>y2 - y1 * 5\<bar> \<le> 1 / 1024"
    by (rule rnd64_step)
  then have e7: "y2 - y1 * 5 \<le> 1 / 1024" "y1 * 5 - y2 \<le> 1 / 1024" by linarith+
  have "\<bar>y2 / 9\<bar> < 2 ^ 44" using bx e1 e2 e3 e4 e5 e6 e7 by simp
  then obtain y3 where y3: "rnd64 (y2 / 9) = Fin y3" and "\<bar>y3 - y2 / 9\<bar> \<le> 1 / 1024"
    by (rule rnd64_step)
  then have e8: "y3 - y2 / 9 \<le> 1 / 1024" "y2 / 9 - y3 \<le> 1 / 1024" by linarith+
  have "\<bar>y3\<bar> < 10 ^ 21" using bx e1 e2 e3 e4 e5 e6 e7 e8 by simp
  then obtain d2 where d2: "toFixed1 (Fin y3) = Decimal d2" and "\<bar>d2 - y3\<bar> \<le> 1 / 20"
    by (rule toFixed1_err)
  then have e9: "d2 - y3 \<le> 1 / 20" "y3 - d2 \<le> 1 / 20" by linarith+
  have "\<bar>d2\<bar> < 2 ^ 44" using bx e1 e2 e3 e4 e5 e6 e7 e8 e9 by simp
  then obtain c where c: "rnd64 d2 = Fin c" and "\<bar>c - d2\<bar> \<le> 1 / 1024"
    by (rule rnd64_step)
  then have e10: "c - d2 \<le> 1 / 1024" "d2 - c \<le> 1 / 1024" by linarith+
  have bwd: "convertTemperature
      \<lparr>value_of = Fin y0, from_unit = fahrenheit, to_unit = celsius\<rparr> = Fin c"
    by (simp add: convertTemperature_cases round1_def num_times_def num_divide_def num_minus_def
        y1 y2 y3 d2 c del: toFixed1.simps)
  have "c - x \<le> 1 / 10" "x - c \<le> 1 / 10"
    using e1 e2 e3 e4 e5 e6 e7 e8 e9 e10 by linarith+
  then have "\<bar>c - x\<bar> \<le> 1 / 10" by linarith
  then show ?thesis by (simp add: fwd bwd)
qed

text \<open>
  C6, as stated, fails: \<open>2\<^sup>1\<^sup>0\<^sup>2\<^sup>3\<close> is a number (a binary64 value), its product with 9
  overflows to \<open>Infinity\<close>, both conversions return \<open>Infinity\<close>, and \<open>Infinity\<close> is not
  within 0.1 of \<open>2\<^sup>1\<^sup>0\<^sup>2\<^sup>3\<close>.
\<close>

theorem C6_round_trip_counterexample:
  "rnd64 (2 ^ 1023) = Fin (2 ^ 1023) \<and>
   \<not> within_tenth
     (convertTemperature
        \<lparr>value_of = convertTemperature
           \<lparr>value_of = Fin (2 ^ 1023), from_unit = celsius, to_unit = fahrenheit\<rparr>,
         from_unit = fahrenheit, to_unit = celsius\<rparr>)
     (Fin (2 ^ 1023))"
proof -
  have "num_times (Fin (2 ^ 1023)) 9 = PosInf"
    unfolding num_times_def lit_op.simps by (rule overflow_2_1023_times_9)
  then have "convertTemperature
      \<lparr>value_of = Fin (2 ^ 1023), from_unit = celsius, to_unit = fahrenheit\<rparr> = PosInf"
    by (simp only: convertTemperature_cases convertTemperature_spec.simps round1_def
        num_divide_def num_plus_def lit_op.simps toFixed1.simps parseFloat.simps)
  moreover have "convertTemperature
      \<lparr>value_of = PosInf, from_unit = fahrenheit, to_unit = celsius\<rparr> = PosInf"
    by (simp only: convertTemperature_cases convertTemperature_spec.simps round1_def
        num_divide_def num_times_def num_minus_def lit_op.simps toFixed1.simps parseFloat.simps)
  ultimately show ?thesis
    by (simp only: within_tenth.simps not_False_eq_True double_2_1023 simp_thms)
qed

text \<open>
  C6, amended: for every number \<open>v\<close>, converting from Celsius to Celsius gives \<open>v\<close>
  rounded to one decimal; and for every finite \<open>x\<close> of magnitude at most \<open>10\<^sup>1\<^sup>2\<close>,
  converting \<open>x\<close> from Celsius to Fahrenheit and back gives a finite number within 0.1
  of \<open>x\<close>.
\<close>

theorem C6_round_trip:
  assumes "\<bar>x\<bar> \<le> 10 ^ 12"
  shows "convertTemperature \<lparr>value_of = v, from_unit = celsius, to_unit = celsius\<rparr> = round1 v \<and>
     within_tenth
       (convertTemperature
          \<lparr>value_of = convertTemperature
             \<lparr>value_of = Fin x, from_unit = celsius, to_unit = fahrenheit\<rparr>,
           from_unit = fahrenheit, to_unit = celsius\<rparr>)
       (Fin x)"
  using round_trip_bounded [OF assms] by (simp add: convertTemperature_cases)

theorem C6_round_trip_witness:
  "\<bar>100 :: rat\<bar> \<le> 10 ^ 12 \<and>
   convertTemperature \<lparr>value_of = Fin 100, from_unit = celsius, to_unit = celsius\<rparr> = Fin 100 \<and>
   convertTemperature \<lparr>value_of = Fin 100, from_unit = celsius, to_unit = fahrenheit\<rparr> = Fin 212 \<and>
   convertTemperature \<lparr>value_of = Fin 212, from_unit = fahrenheit, to_unit = celsius\<rparr> = Fin 100 \<and>
   within_tenth
     (convertTemperature
        \<lparr>value_of = convertTemperature
           \<lparr>value_of = Fin 100, from_unit = celsius, to_unit = fahrenheit\<rparr>,
         from_unit = fahrenheit, to_unit = celsius\<rparr>)
     (Fin 100)"
  using C6_round_trip [of 100 "Fin 100"] by (simp add: conversion_evals)

section \<open>Fetching: success, validation and the stored reading\<close>

lemma accepted_iff_plausible:
  "json_number t \<Longrightarrow> (num_less t (- 90) \<or> num_greater t 60) = (\<not> in_plausible_range t)"
  by (cases t) auto

lemma buildWeatherData_fields:
  "temperature (buildWeatherData data) = round1 (temp_c (current data))"
  "temperatureUnit (buildWeatherData data) = celsius"
  "connectionStatus (buildWeatherData data) = online"
  "lastUpdate (buildWeatherData data) = last_updated (current data)"
  "location (buildWeatherData data) =
     name (location_of data) @ '', '' @
       (if region (location_of data) = [] then country (location_of data)
        else region (location_of data))"
  by (simp_all add: buildWeatherData_def round1_def del: toFixed1.simps)

lemma plausible_fresh:
  assumes "in_plausible_range t"
  shows "in_plausible_range (round1 t) \<and>
    (\<exists>n \<in> {- 900 .. 600}. round1 t = rnd64 (of_int n / 10))"
proof -
  from assms obtain a where t: "t = Fin a" and a: "- 90 \<le> a" "a \<le> 60"
    by (cases t) simp_all
  from a obtain n r where r: "round1 (Fin a) = Fin r" "rnd64 (of_int n / 10) = Fin r"
    "- 90 \<le> r" "r \<le> 60" "- 900 \<le> n" "n \<le> 600"
    by (rule round1_plausible)
  have "n \<in> {- 900 .. 600}" using r(5,6) by simp
  moreover have "round1 t = rnd64 (of_int n / 10)" using r(1,2) by (simp add: t)
  ultimately have "\<exists>n \<in> {- 900 .. 600}. round1 t = rnd64 (of_int n / 10)" by blast
  moreover have "in_plausible_range (round1 t)" using r(1,3,4) by (simp add: t)
  ultimately show ?thesis by blast
qed

lemma fetchAttempt_fresh:
  assumes "fetchAttempt outcome now = Inr (w, written)" "json_payload outcome"
  shows "stored_fresh written"
proof (cases outcome)
  case (FetchRejected e)
  with assms(1) show ?thesis by (simp add: fetchAttempt_rejected)
next
  case (Response ok body)
  show ?thesis
  proof (cases body)
    case (JsonRejected e)
    with assms(1) Response show ?thesis
      by (cases ok) (simp_all add: fetchAttempt_not_ok fetchAttempt_json_rejected)
  next
    case (JsonBody data)
    have ok: "ok" using assms(1) Response by (cases ok) (simp_all add: fetchAttempt_not_ok)
    have jn: "json_number (temp_c (current data))" using assms(2) Response JsonBody by simp
    have pl: "in_plausible_range (temp_c (current data))"
      using assms(1) Response JsonBody ok accepted_iff_plausible [OF jn]
      by (simp add: fetchAttempt_body split: if_splits)
    have wr: "written = Some \<lparr>temperature = temperature (buildWeatherData data),
                      temperatureUnit = temperatureUnit (buildWeatherData data),
                      location = location (buildWeatherData data),
                      lastUpdate = lastUpdate (buildWeatherData data),
                      connectionStatus = connectionStatus (buildWeatherData data),
                      cachedAt = now\<rparr>"
      using assms(1) Response JsonBody ok by (auto simp add: fetchAttempt_body split: if_splits)
    show ?thesis
      using plausible_fresh [OF pl] by (simp add: wr stored_fresh_def buildWeatherData_fields)
  qed
qed

lemma step_fresh:
  assumes "stored_fresh weatherCache" "json_operation op"
  shows "stored_fresh (step weatherCache op)"
proof (cases op)
  case (FetchWeatherData provider now loc)
  show ?thesis
  proof (cases "fetchAttempt (provider loc) now")
    case (Inl err)
    then have "snd (fetchWeatherData provider now loc weatherCache) = weatherCache"
      by (simp add: fetchWeatherData_failure split: option.split)
    with assms(1) FetchWeatherData show ?thesis by simp
  next
    case (Inr p)
    obtain w written where p: "p = (w, written)" by (cases p)
    have "stored_fresh written"
      using Inr assms(2) FetchWeatherData unfolding p by (intro fetchAttempt_fresh) simp_all
    moreover have "snd (fetchWeatherData provider now loc weatherCache) = written"
      using Inr by (simp add: fetchWeatherData_def p)
    ultimately show ?thesis using FetchWeatherData by simp
  qed
next
  case ClearCache
  then show ?thesis by (simp add: clearCache_def stored_fresh_def)
qed (use assms(1) in simp_all)

lemma foldl_step_fresh:
  "stored_fresh weatherCache \<Longrightarrow> list_all json_operation ops \<Longrightarrow>
   stored_fresh (foldl step weatherCache ops)"
  by (induction ops arbitrary: weatherCache) (simp_all add: step_fresh)

lemma buildWeatherData_eq:
  "buildWeatherData data =
     \<lparr>temperature = round1 (temp_c (current data)),
      temperatureUnit = celsius,
      location = name (location_of data) @ '', '' @
        (if region (location_of data) = [] then country (location_of data)
         else region (location_of data)),
      lastUpdate = last_updated (current data),
      connectionStatus = online\<rparr>"
  by (simp add: buildWeatherData_def round1_def del: toFixed1.simps)

lemma fetchWeatherData_success:
  assumes "provider loc = Response True (JsonBody data)"
    "in_plausible_range (temp_c (current data))"
  shows "fetchWeatherData provider now loc weatherCache =
     (Inr (buildWeatherData data),
      Some \<lparr>temperature = round1 (temp_c (current data)),
            temperatureUnit = celsius,
            location = name (location_of data) @ '', '' @
              (if region (location_of data) = [] then country (location_of data)
               else region (location_of data)),
            lastUpdate = last_updated (current data),
            connectionStatus = online,
            cachedAt = now\<rparr>)"
proof -
  have "json_number (temp_c (current data))" using assms(2) by (cases "temp_c (current data)") simp_all
  from accepted_iff_plausible [OF this] assms(2)
  have "\<not> (num_less (temp_c (current data)) (- 90) \<or> num_greater (temp_c (current data)) 60)"
    by simp
  then show ?thesis
    by (simp add: fetchWeatherData_def assms(1) fetchAttempt_body buildWeatherData_fields)
qed

text \<open>
  C3: a fetch that succeeds (an \<open>ok\<close> response whose Celsius reading \<open>a\<close> is within
  \<open>[-90, 60]\<close>) returns a reading in Celsius, with status \<open>online\<close> and temperature
  \<open>a\<close> rounded to one decimal place: the number nearest to a decimal \<open>n / 10\<close> that is
  within 0.05 of \<open>a\<close>. Whatever the slot held, it then holds exactly this reading,
  stamped with the current time; so after a second successful fetch, for any other
  location, the slot holds the second reading only.
\<close>

theorem C3_fetch_success:
  assumes "provider loc = Response True (JsonBody data)"
    and "temp_c (current data) = Fin a" and "- 90 \<le> a" and "a \<le> 60"
    and "provider' loc' = Response True (JsonBody data')"
    and "in_plausible_range (temp_c (current data'))"
  shows "fetchWeatherData provider now loc weatherCache =
     (Inr \<lparr>temperature = round1 (Fin a),
           temperatureUnit = celsius,
           location = name (location_of data) @ '', '' @
             (if region (location_of data) = [] then country (location_of data)
              else region (location_of data)),
           lastUpdate = last_updated (current data),
           connectionStatus = online\<rparr>,
      Some \<lparr>temperature = round1 (Fin a),
            temperatureUnit = celsius,
            location = name (location_of data) @ '', '' @
              (if region (location_of data) = [] then country (location_of data)
               else region (location_of data)),
            lastUpdate = last_updated (current data),
            connectionStatus = online,
            cachedAt = now\<rparr>) \<and>
    (\<exists>n r. round1 (Fin a) = Fin r \<and> rnd64 (of_int n / 10) = Fin r \<and>
           \<bar>of_int n / 10 - a\<bar> \<le> 1 / 20) \<and>
    snd (fetchWeatherData provider' now' loc'
          (snd (fetchWeatherData provider now loc weatherCache))) =
      Some \<lparr>temperature = round1 (temp_c (current data')),
            temperatureUnit = celsius,
            location = name (location_of data') @ '', '' @
              (if region (location_of data') = [] then country (location_of data')
               else region (location_of data')),
            lastUpdate = last_updated (current data'),
            connectionStatus = online,
            cachedAt = now'\<rparr>"
proof -
  have pl: "in_plausible_range (temp_c (current data))" using assms(2-4) by simp
  from assms(3,4) obtain n r where "round1 (Fin a) = Fin r" "rnd64 (of_int n / 10) = Fin r"
    "\<bar>of_int n / 10 - a\<bar> \<le> 1 / 20"
    by (rule round1_plausible)
  then have "\<exists>n r. round1 (Fin a) = Fin r \<and> rnd64 (of_int n / 10) = Fin r \<and>
           \<bar>of_int n / 10 - a\<bar> \<le> 1 / 20" by blast
  then show ?thesis
    using assms(1,5,6) pl
      fetchWeatherData_success [of provider loc data now weatherCache]
      fetchWeatherData_success [of provider' loc' data' now'
        "snd (fetchWeatherData provider now loc weatherCache)"]
    by (simp add: buildWeatherData_eq assms(2))
qed

theorem C3_fetch_success_witness:
  "fetchWeatherData
     (\<lambda>l. Response True (JsonBody
        \<lparr>current = \<lparr>temp_c = Fin 21, temp_f = Fin 70, last_updated = ''2024-05-01 10:00''\<rparr>,
         location_of = \<lparr>name = ''Lisbon'', region = ''Lisboa'', country = ''Portugal''\<rparr>\<rparr>))
     1000 ''Lisbon'' None =
     (Inr \<lparr>temperature = Fin 21, temperatureUnit = celsius, location = ''Lisbon, Lisboa'',
           lastUpdate = ''2024-05-01 10:00'', connectionStatus = online\<rparr>,
      Some \<lparr>temperature = Fin 21, temperatureUnit = celsius, location = ''Lisbon, Lisboa'',
            lastUpdate = ''2024-05-01 10:00'', connectionStatus = online, cachedAt = 1000\<rparr>) \<and>
   snd (fetchWeatherData
     (\<lambda>l. Response True (JsonBody
        \<lparr>current = \<lparr>temp_c = Fin 18, temp_f = Fin 64, last_updated = ''2024-05-01 10:15''\<rparr>,
         location_of = \<lparr>name = ''Porto'', region = [], country = ''Portugal''\<rparr>\<rparr>))
     2000 ''Porto''
     (snd (fetchWeatherData
       (\<lambda>l. Response True (JsonBody
          \<lparr>current = \<lparr>temp_c = Fin 21, temp_f = Fin 70, last_updated = ''2024-05-01 10:00''\<rparr>,
           location_of = \<lparr>name = ''Lisbon'', region = ''Lisboa'', country = ''Portugal''\<rparr>\<rparr>))
       1000 ''Lisbon'' None))) =
     Some \<lparr>temperature = Fin 18, temperatureUnit = celsius, location = ''Porto, Portugal'',
           lastUpdate = ''2024-05-01 10:15'', connectionStatus = online, cachedAt = 2000\<rparr>"
  using C3_fetch_success [of
      "\<lambda>l. Response True (JsonBody
        \<lparr>current = \<lparr>temp_c = Fin 21, temp_f = Fin 70, last_updated = ''2024-05-01 10:00''\<rparr>,
         location_of = \<lparr>name = ''Lisbon'', region = ''Lisboa'', country = ''Portugal''\<rparr>\<rparr>)"
      "''Lisbon''"
      "\<lparr>current = \<lparr>temp_c = Fin 21, temp_f = Fin 70, last_updated = ''2024-05-01 10:00''\<rparr>,
         location_of = \<lparr>name = ''Lisbon'', region = ''Lisboa'', country = ''Portugal''\<rparr>\<rparr>"
      21
      "\<lambda>l. Response True (JsonBody
        \<lparr>current = \<lparr>temp_c = Fin 18, temp_f = Fin 64, last_updated = ''2024-05-01 10:15''\<rparr>,
         location_of = \<lparr>name = ''Porto'', region = [], country = ''Portugal''\<rparr>\<rparr>)"
      "''Porto''"
      "\<lparr>current = \<lparr>temp_c = Fin 18, temp_f = Fin 64, last_updated = ''2024-05-01 10:15''\<rparr>,
         location_of = \<lparr>name = ''Porto'', region = [], country = ''Portugal''\<rparr>\<rparr>"
      1000 None 2000]
  by (simp add: round1_numeral fetchWeatherData_def fetchAttempt_body buildWeatherData_eq)

text \<open>
  C4: for an \<open>ok\<close> response whose body was read (its Celsius reading is then a JSON
  number), the attempt fails with \<open>temperatureOutOfRange\<close> exactly when the reading is
  outside the closed interval \<open>[-90, 60]\<close>. Then \<open>fetchWeatherData\<close> gives the cached
  reading, or the error on an empty slot, and never the reading received; within the
  interval it gives the fresh reading. Readings of 61 and -91 are refused; 60 and -90
  are accepted and returned as they are.
\<close>

theorem C4_range_validation:
  assumes "provider loc = Response True (JsonBody data)"
    and "json_number (temp_c (current data))"
  shows "(fetchAttempt (provider loc) now = Inl temperatureOutOfRange) =
           (\<not> in_plausible_range (temp_c (current data))) \<and>
    fst (fetchWeatherData provider now loc weatherCache) =
      (if in_plausible_range (temp_c (current data)) then Inr (buildWeatherData data)
       else (case weatherCache of
               None \<Rightarrow> Inl temperatureOutOfRange
             | Some c \<Rightarrow> getCachedWeatherData now weatherCache)) \<and>
    temperature (buildWeatherData data) = round1 (temp_c (current data)) \<and>
    fetchAttempt
      (Response True (JsonBody (data\<lparr>current := (current data)\<lparr>temp_c := Fin 61\<rparr>\<rparr>))) now =
      Inl temperatureOutOfRange \<and>
    fetchAttempt
      (Response True (JsonBody (data\<lparr>current := (current data)\<lparr>temp_c := Fin (- 91)\<rparr>\<rparr>))) now =
      Inl temperatureOutOfRange \<and>
    map_sum id (temperature \<circ> fst) (fetchAttempt
      (Response True (JsonBody (data\<lparr>current := (current data)\<lparr>temp_c := Fin 60\<rparr>\<rparr>))) now) =
      Inr (Fin 60) \<and>
    map_sum id (temperature \<circ> fst) (fetchAttempt
      (Response True (JsonBody (data\<lparr>current := (current data)\<lparr>temp_c := Fin (- 90)\<rparr>\<rparr>))) now) =
      Inr (Fin (- 90))"
proof -
  note acc = accepted_iff_plausible [OF assms(2)]
  have a: "(fetchAttempt (provider loc) now = Inl temperatureOutOfRange) =
           (\<not> in_plausible_range (temp_c (current data)))"
    using acc by (simp add: assms(1) fetchAttempt_body)
  have b: "fst (fetchWeatherData provider now loc weatherCache) =
      (if in_plausible_range (temp_c (current data)) then Inr (buildWeatherData data)
       else (case weatherCache of
               None \<Rightarrow> Inl temperatureOutOfRange
             | Some c \<Rightarrow> getCachedWeatherData now weatherCache))"
    using acc by (simp add: fetchWeatherData_def assms(1) fetchAttempt_body split: option.split)
  show ?thesis
    by (simp add: a b buildWeatherData_fields fetchAttempt_body round1_numeral round1_neg_numeral)
qed

theorem C4_range_validation_witness:
  "json_number (Fin 61) \<and>
   fetchAttempt (Response True (JsonBody
      \<lparr>current = \<lparr>temp_c = Fin 61, temp_f = Fin 142, last_updated = ''2024-05-01 10:00''\<rparr>,
       location_of = \<lparr>name = ''Lisbon'', region = ''Lisboa'', country = ''Portugal''\<rparr>\<rparr>))
     7200001 = Inl temperatureOutOfRange \<and>
   fst (fetchWeatherData
     (\<lambda>l. Response True (JsonBody
        \<lparr>current = \<lparr>temp_c = Fin 61, temp_f = Fin 142, last_updated = ''2024-05-01 10:00''\<rparr>,
         location_of = \<lparr>name = ''Lisbon'', region = ''Lisboa'', country = ''Portugal''\<rparr>\<rparr>))
     7200001 ''Lisbon''
     (Some \<lparr>temperature = Fin 20, temperatureUnit = celsius, location = ''Lisbon, Lisboa'',
            lastUpdate = ''2024-05-01 08:00'', connectionStatus = online, cachedAt = 0\<rparr>)) =
     Inr \<lparr>temperature = Fin 20, temperatureUnit = celsius, location = ''Lisbon, Lisboa'',
          lastUpdate = ''2024-05-01 08:00'', connectionStatus = outdated\<rparr> \<and>
   fst (fetchWeatherData
     (\<lambda>l. Response True (JsonBody
        \<lparr>current = \<lparr>temp_c = Fin 61, temp_f = Fin 142, last_updated = ''2024-05-01 10:00''\<rparr>,
         location_of = \<lparr>name = ''Lisbon'', region = ''Lisboa'', country = ''Portugal''\<rparr>\<rparr>))
     7200001 ''Lisbon'' None) = Inl temperatureOutOfRange"
  using C4_range_validation [of
      "\<lambda>l. Response True (JsonBody
        \<lparr>current = \<lparr>temp_c = Fin 61, temp_f = Fin 142, last_updated = ''2024-05-01 10:00''\<rparr>,
         location_of = \<lparr>name = ''Lisbon'', region = ''Lisboa'', country = ''Portugal''\<rparr>\<rparr>)"
      "''Lisbon''"
      "\<lparr>current = \<lparr>temp_c = Fin 61, temp_f = Fin 142, last_updated = ''2024-05-01 10:00''\<rparr>,
         location_of = \<lparr>name = ''Lisbon'', region = ''Lisboa'', country = ''Portugal''\<rparr>\<rparr>"
      7200001
      "Some \<lparr>temperature = Fin 20, temperatureUnit = celsius, location = ''Lisbon, Lisboa'',
            lastUpdate = ''2024-05-01 08:00'', connectionStatus = online, cachedAt = 0\<rparr>"]
  by (simp add: fetchWeatherData_def fetchAttempt_body getCachedWeatherData_Some cacheStatus_cases)

text \<open>
  C9: after any sequence of the five operations from the empty slot (the bodies the
  provider sends being JSON), a populated slot holds a reading with status \<open>online\<close>,
  in Celsius, whose temperature is within \<open>[-90, 60]\<close> and has one decimal place: it
  is the number nearest to \<open>n / 10\<close> for an integer \<open>n\<close> from -900 to 600 (a reading of
  21.375 is stored as 21.4). The statuses \<open>offline\<close> and \<open>outdated\<close> are on readings returned by
  \<open>getCachedWeatherData\<close> only, which writes nothing.
\<close>

theorem C9_stored_reading_fresh:
  assumes "list_all json_operation ops"
  shows "stored_fresh (run ops)"
  unfolding run_def using assms by (intro foldl_step_fresh) (simp_all add: stored_fresh_def)

theorem C9_stored_reading_fresh_witness:
  "list_all json_operation
     [FetchWeatherData (\<lambda>l. Response True (JsonBody
        \<lparr>current = \<lparr>temp_c = Fin (171 / 8), temp_f = Fin 70, last_updated = ''2024-05-01 10:00''\<rparr>,
         location_of = \<lparr>name = ''Lisbon'', region = ''Lisboa'', country = ''Portugal''\<rparr>\<rparr>))
        1000 ''Lisbon'',
      GetCachedWeatherData 2000,
      FetchWeatherData (\<lambda>l. Response False (JsonRejected [])) 7200000 ''Porto'',
      HasCachedData] \<and>
   run
     [FetchWeatherData (\<lambda>l. Response True (JsonBody
        \<lparr>current = \<lparr>temp_c = Fin (171 / 8), temp_f = Fin 70, last_updated = ''2024-05-01 10:00''\<rparr>,
         location_of = \<lparr>name = ''Lisbon'', region = ''Lisboa'', country = ''Portugal''\<rparr>\<rparr>))
        1000 ''Lisbon'',
      GetCachedWeatherData 2000,
      FetchWeatherData (\<lambda>l. Response False (JsonRejected [])) 7200000 ''Porto'',
      HasCachedData] =
     Some \<lparr>temperature = Fin (3011782250804019 / 140737488355328), temperatureUnit = celsius,
           location = ''Lisbon, Lisboa'', lastUpdate = ''2024-05-01 10:00'',
           connectionStatus = online, cachedAt = 1000\<rparr> \<and>
   rnd64 (214 / 10) = Fin (3011782250804019 / 140737488355328) \<and>
   stored_fresh
     (Some \<lparr>temperature = Fin (3011782250804019 / 140737488355328), temperatureUnit = celsius,
            location = ''Lisbon, Lisboa'', lastUpdate = ''2024-05-01 10:00'',
            connectionStatus = online, cachedAt = 1000\<rparr>)"
  using C9_stored_reading_fresh [of
     "[FetchWeatherData (\<lambda>l. Response True (JsonBody
        \<lparr>current = \<lparr>temp_c = Fin (171 / 8), temp_f = Fin 70, last_updated = ''2024-05-01 10:00''\<rparr>,
         location_of = \<lparr>name = ''Lisbon'', region = ''Lisboa'', country = ''Portugal''\<rparr>\<rparr>))
        1000 ''Lisbon'',
      GetCachedWeatherData 2000,
      FetchWeatherData (\<lambda>l. Response False (JsonRejected [])) 7200000 ''Porto'',
      HasCachedData]"]
  by (simp add: run_def fetchWeatherData_def fetchAttempt_body fetchAttempt_not_ok
      buildWeatherData_eq round1_def floor_rat_numeral_div double_21_4)

end
